theory Spec2Isabelle
  imports Main "HOL-Library.Word" "HOL-Library.List_Lexorder"
begin

unbundle bit_operations_syntax

section \<open>Bytes, errors and the Go runtime\<close>

text \<open>
  A Go \<open>[]byte\<close> is a list of 8-bit words; the store compares keys bytewise, which is the
  lexicographic order on such lists. \<open>int64\<close> is a 64-bit word: \<open>+\<close> and \<open>-\<close> wrap,
  \<open>sint\<close> reads the signed value. A slice that may be \<open>nil\<close> is a \<open>bytes option\<close>.
\<close>

type_synonym byte = "8 word"
type_synonym bytes = "byte list"
type_synonym int64 = "64 word"

text \<open>
  The errors of the package (\<open>ErrTypeMismatch\<close>, \<open>ErrInvalidLength\<close>, \<open>ErrSetNilValue\<close>),
  the store's not-found error, any other error of the store (\<open>ErrStore\<close>, numbered), and a
  run-time panic of Go (slice bounds or index out of range).
\<close>

datatype error =
    ErrNotFound
  | ErrTypeMismatch
  | ErrInvalidLength
  | ErrSetNilValue
  | ErrStore nat
  | Panic

definition IsErrNotFound :: "error \<Rightarrow> bool" where
  "IsErrNotFound err = (err = ErrNotFound)"

text \<open>Go's \<open>b[lo:]\<close> and \<open>b[:hi]\<close>: a panic when the bound is past the end of the slice.\<close>

definition slice_from :: "bytes \<Rightarrow> nat \<Rightarrow> error + bytes" where
  "slice_from b lo = (if lo \<le> length b then Inr (drop lo b) else Inl Panic)"

definition slice_to :: "bytes \<Rightarrow> nat \<Rightarrow> error + bytes" where
  "slice_to b hi = (if hi \<le> length b then Inr (take hi b) else Inl Panic)"

text \<open>\<open>binary.BigEndian.PutUint64\<close> and \<open>binary.BigEndian.Uint64\<close> on an 8-byte slice.\<close>

definition PutUint64 :: "int64 \<Rightarrow> bytes" where
  "PutUint64 v =
     [ucast (drop_bit 56 v), ucast (drop_bit 48 v), ucast (drop_bit 40 v),
      ucast (drop_bit 32 v), ucast (drop_bit 24 v), ucast (drop_bit 16 v),
      ucast (drop_bit 8 v), ucast v]"

definition Uint64 :: "bytes \<Rightarrow> int64" where
  "Uint64 b =
     ucast (b ! 7) OR push_bit 8 (ucast (b ! 6)) OR push_bit 16 (ucast (b ! 5)) OR
     push_bit 24 (ucast (b ! 4)) OR push_bit 32 (ucast (b ! 3)) OR
     push_bit 40 (ucast (b ! 2)) OR push_bit 48 (ucast (b ! 1)) OR
     push_bit 56 (ucast (b ! 0))"

text \<open>\<open>bytes.HasPrefix\<close> (and \<open>kv.Key.HasPrefix\<close>).\<close>

definition HasPrefix :: "bytes \<Rightarrow> bytes \<Rightarrow> bool" where
  "HasPrefix s p = (length p \<le> length s \<and> take (length p) s = p)"

text \<open>
  \<open>kv.Key.PrefixNext\<close>: the key is incremented as a big-endian number, from its last byte,
  carrying while a byte wraps to 0; when every byte wraps, the result is the key followed by
  a 0 byte. \<open>inc_be\<close> returns the incremented buffer and whether the carry left it.
\<close>

fun inc_be :: "bytes \<Rightarrow> bytes \<times> bool" where
  "inc_be [] = ([], True)"
| "inc_be (b # bs) =
     (case inc_be bs of
        (bs', True) \<Rightarrow> ((b + 1) # bs', b + 1 = 0)
      | (bs', False) \<Rightarrow> (b # bs', False))"

definition PrefixNext :: "bytes \<Rightarrow> bytes" where
  "PrefixNext k = (case inc_be k of (buf, True) \<Rightarrow> k @ [0] | (buf, False) \<Rightarrow> buf)"

section \<open>Object header, set metadata and the set handle\<close>

text \<open>
  The fields of \<open>Object\<close> are those \<open>newSet\<close> fills in: \<open>ID\<close> from \<open>UUID()\<close>, the three
  times from \<open>Now()\<close>, the type tag and the encoding tag (one byte each). \<open>SetMeta\<close> embeds
  an \<open>Object\<close> and adds \<open>Len\<close>. The handle \<open>Set\<close> of the source is \<open>SetObj\<close>; its field
  \<open>txn\<close> is the world that every operation takes and returns.
\<close>

record Object =
  ID :: bytes
  CreatedAt :: int64
  UpdatedAt :: int64
  ExpireAt :: int64
  Type :: byte
  Encoding :: byte

record SetMeta =
  Object :: Object
  Len :: int64

record SetObj =
  meta :: SetMeta
  key :: bytes
  exists :: bool

text \<open>\<open>SetNilValue\<close>: the one-byte value stored under every member key.\<close>

definition SetNilValue :: bytes where
  "SetNilValue = [0]"

section \<open>The collaborators of the package\<close>

text \<open>
  The key namespace, the object codec and the two tags are declared outside this file of
  the package. They are parameters of the model: \<open>MetaKey\<close> and \<open>DataKey\<close> are taken at
  the database of the transaction (\<open>txn.db\<close>), \<open>DecodeObject\<close> receives the slice it is
  given (\<open>None\<close> is \<open>nil\<close>).
\<close>

record env =
  MetaKey :: "bytes \<Rightarrow> bytes"
  DataKey :: "bytes \<Rightarrow> bytes"
  EncodeObject :: "Object \<Rightarrow> bytes"
  DecodeObject :: "bytes option \<Rightarrow> error + Object"
  ObjectEncodingLength :: nat
  ObjectSet :: byte
  ObjectEncodingHT :: byte

text \<open>
  Modelled from the spec: \<open>IsExpired\<close>, the expiration test of the object layer, is not in
  this file. The spec: expiration time 0 means none; an object is expired when its
  expiration time is set and in the past.
\<close>

definition IsExpired :: "Object \<Rightarrow> int64 \<Rightarrow> bool" where
  "IsExpired obj now = (ExpireAt obj \<noteq> 0 \<and> ExpireAt obj <s now)"

text \<open>
  Modelled from the spec: the transaction, the clock and the identifier generator are not
  in this file. The world holds the content of the ordered store as an association list
  (\<open>kv\<close>), the readings \<open>Now()\<close> returns one after the other (\<open>clock\<close>, \<open>ticks\<close> counts
  the calls), the identifiers \<open>UUID()\<close> returns (\<open>uuids\<close>, \<open>issued\<close>), and for each
  operation of the store the error it fails with, if any (\<open>get_err\<close> to \<open>next_err\<close>):
  \<open>get(key)\<close> gives the value or NotFound, \<open>set\<close> and \<open>delete\<close> write, \<open>iterate\<close> gives a
  cursor over the keys of \<open>[start, end)\<close> in bytewise order.
\<close>

record world =
  kv :: "(bytes \<times> bytes) list"
  get_err :: "bytes \<Rightarrow> error option"
  batch_err :: "bytes list \<Rightarrow> error option"
  set_err :: "bytes \<Rightarrow> error option"
  del_err :: "bytes \<Rightarrow> error option"
  iter_err :: "bytes \<Rightarrow> error option"
  next_err :: "bytes \<Rightarrow> error option"
  clock :: "nat \<Rightarrow> int64"
  ticks :: nat
  uuids :: "nat \<Rightarrow> bytes"
  issued :: nat

text \<open>
  Modelled from the spec: \<open>Now()\<close>, the clock reader, is not in this file. Each call
  returns the next reading.
\<close>

definition Now :: "world \<Rightarrow> int64 \<times> world" where
  "Now w = (clock w (ticks w), w\<lparr>ticks := Suc (ticks w)\<rparr>)"

text \<open>
  Modelled from the spec: \<open>UUID()\<close>, the identifier generator, is not in this file. Each
  call returns the next identifier.
\<close>

definition UUID :: "world \<Rightarrow> bytes \<times> world" where
  "UUID w = (uuids w (issued w), w\<lparr>issued := Suc (issued w)\<rparr>)"

text \<open>
  Modelled from the spec: \<open>txn.t.Get\<close>, \<open>get(key)\<close> of the transaction, gives the value
  of the key or the NotFound error, unless the store fails.
\<close>

definition txn_Get :: "world \<Rightarrow> bytes \<Rightarrow> error + bytes" where
  "txn_Get w k =
     (case get_err w k of
        Some e \<Rightarrow> Inl e
      | None \<Rightarrow> (case map_of (kv w) k of None \<Rightarrow> Inl ErrNotFound | Some v \<Rightarrow> Inr v))"

text \<open>
  Modelled from the spec: \<open>txn.t.Set\<close>, \<open>set(key, value)\<close> of the transaction, replaces
  the value of the key, unless the store fails.
\<close>

definition txn_Set :: "world \<Rightarrow> bytes \<Rightarrow> bytes \<Rightarrow> error + world" where
  "txn_Set w k v =
     (case set_err w k of
        Some e \<Rightarrow> Inl e
      | None \<Rightarrow> Inr (w\<lparr>kv := (k, v) # filter (\<lambda>p. fst p \<noteq> k) (kv w)\<rparr>))"

text \<open>
  Modelled from the spec: \<open>txn.t.Delete\<close>, \<open>delete(key)\<close> of the transaction, removes
  the key, unless the store fails.
\<close>

definition txn_Delete :: "world \<Rightarrow> bytes \<Rightarrow> error + world" where
  "txn_Delete w k =
     (case del_err w k of
        Some e \<Rightarrow> Inl e
      | None \<Rightarrow> Inr (w\<lparr>kv := filter (\<lambda>p. fst p \<noteq> k) (kv w)\<rparr>))"

text \<open>
  Modelled from the spec: \<open>txn.t.Iter\<close>, \<open>iterate(startKey, endKeyExclusive)\<close> of the
  transaction, is not in this file. The cursor is a finite forward-only sequence bound to
  \<open>[start, end)\<close>, fixed when it is opened: the keys still to visit, in order. \<open>Valid()\<close> is
  "not empty", \<open>Key()\<close> the head, \<open>Next()\<close> drops the head or fails with the error
  \<open>next_err\<close> gives for the current key; deleting the current key from the store leaves
  the cursor as it is.
\<close>

definition txn_Iter :: "world \<Rightarrow> bytes \<Rightarrow> bytes \<Rightarrow> error + bytes list" where
  "txn_Iter w lo hi =
     (case iter_err w lo of
        Some e \<Rightarrow> Inl e
      | None \<Rightarrow> Inr (sort (remdups (filter (\<lambda>k. lo \<le> k \<and> k < hi) (map fst (kv w))))))"

text \<open>
  Modelled from the spec: \<open>BatchGetValues\<close> is not in this file. The spec: it fetches the
  current values of all keys in one round trip; the value of an absent key is \<open>nil\<close>.
\<close>

definition BatchGetValues :: "world \<Rightarrow> bytes list \<Rightarrow> error + bytes option list" where
  "BatchGetValues w keys =
     (case batch_err w keys of
        Some e \<Rightarrow> Inl e
      | None \<Rightarrow> Inr (map (map_of (kv w)) keys))"

section \<open>The set layer (db/set.go)\<close>

definition newSet :: "env \<Rightarrow> bytes \<Rightarrow> world \<Rightarrow> SetObj \<times> world" where
  "newSet env k w =
     (case Now w of (now, w1) \<Rightarrow>
      case UUID w1 of (uid, w2) \<Rightarrow>
        (\<lparr>meta = \<lparr>Object = \<lparr>ID = uid, CreatedAt = now, UpdatedAt = now, ExpireAt = 0,
                              Type = ObjectSet env, Encoding = ObjectEncodingHT env\<rparr>,
                   Len = 0\<rparr>,
          key = k, exists = False\<rparr>, w2))"

definition DecodeSetMeta :: "env \<Rightarrow> bytes option \<Rightarrow> error + SetMeta" where
  "DecodeSetMeta env b =
     (case (case b of
              None \<Rightarrow> Inr ()
            | Some bs \<Rightarrow>
                (case slice_from bs (ObjectEncodingLength env) of
                   Inl e \<Rightarrow> Inl e
                 | Inr r \<Rightarrow> if length r \<noteq> 8 then Inl ErrInvalidLength else Inr ())) of
        Inl e \<Rightarrow> Inl e
      | Inr u \<Rightarrow>
          (case DecodeObject env b of
             Inl err \<Rightarrow> Inl err
           | Inr obj \<Rightarrow>
               (case slice_from (case b of None \<Rightarrow> [] | Some bs \<Rightarrow> bs)
                       (ObjectEncodingLength env) of
                  Inl e \<Rightarrow> Inl e
                | Inr m \<Rightarrow>
                    (case slice_to m 8 of
                       Inl e \<Rightarrow> Inl e
                     | Inr m8 \<Rightarrow> Inr \<lparr>Object = obj, Len = Uint64 m8\<rparr>))))"

definition encodeSetMeta :: "env \<Rightarrow> SetMeta \<Rightarrow> bytes" where
  "encodeSetMeta env m = EncodeObject env (Object m) @ PutUint64 (Len m)"

definition setItemKey :: "bytes \<Rightarrow> bytes \<Rightarrow> bytes" where
  "setItemKey k member = k @ [58] @ member"

definition GetSet :: "env \<Rightarrow> bytes \<Rightarrow> world \<Rightarrow> (error + SetObj) \<times> world" where
  "GetSet env k w =
     (case newSet env k w of (st, w1) \<Rightarrow>
       (case txn_Get w1 (MetaKey env k) of
          Inl err \<Rightarrow> if IsErrNotFound err then (Inr st, w1) else (Inl err, w1)
        | Inr mbytes \<Rightarrow>
            (case DecodeSetMeta env (Some mbytes) of
               Inl err \<Rightarrow> (Inl err, w1)
             | Inr smeta \<Rightarrow>
                 if Type (Object smeta) \<noteq> ObjectSet env then (Inl ErrTypeMismatch, w1)
                 else (case Now w1 of (now, w2) \<Rightarrow>
                         if IsExpired (Object (meta st)) now then (Inr st, w2)
                         else (Inr (st\<lparr>meta := smeta, exists := True\<rparr>), w2)))))"

text \<open>
  \<open>updateMeta\<close> returns the error (\<open>None\<close> is \<open>nil\<close>), the handle and the world: the record
  is encoded first, written second, and the handle's \<open>UpdatedAt\<close> is set last.
\<close>

definition updateMeta :: "env \<Rightarrow> SetObj \<Rightarrow> world \<Rightarrow> error option \<times> SetObj \<times> world" where
  "updateMeta env st w =
     (let m = encodeSetMeta env (meta st) in
      case txn_Set w (MetaKey env (key st)) m of
        Inl err \<Rightarrow> (Some err, st, w)
      | Inr w1 \<Rightarrow>
          (case Now w1 of (now, w2) \<Rightarrow>
             (None,
              st\<lparr>meta := (meta st)\<lparr>Object := (Object (meta st))\<lparr>UpdatedAt := now\<rparr>\<rparr>,
                  exists := True\<rparr>,
              w2)))"

text \<open>
  \<open>RemoveRepByMap\<close>: \<open>uniq\<close> is the set of members seen so far, \<open>result\<close> the first
  occurrences in order.
\<close>

fun RemoveRepByMap_loop :: "bytes list \<Rightarrow> bytes list \<Rightarrow> bytes set \<Rightarrow> bytes list" where
  "RemoveRepByMap_loop [] result uniq = result"
| "RemoveRepByMap_loop (m # ms) result uniq =
     (if m \<notin> uniq then RemoveRepByMap_loop ms (result @ [m]) (insert m uniq)
      else RemoveRepByMap_loop ms result uniq)"

definition RemoveRepByMap :: "bytes list \<Rightarrow> bytes list" where
  "RemoveRepByMap members = RemoveRepByMap_loop members [] {}"

text \<open>
  The second loop of \<open>SAdd\<close>, over \<open>ikeys\<close> and \<open>values\<close> in step; a \<open>values\<close> shorter than
  \<open>ikeys\<close> is an index out of range.
\<close>

fun SAdd_loop :: "bytes list \<Rightarrow> bytes option list \<Rightarrow> int64 \<Rightarrow> world \<Rightarrow> (error + int64) \<times> world" where
  "SAdd_loop [] vs added w = (Inr added, w)"
| "SAdd_loop (k # ks) [] added w = (Inl Panic, w)"
| "SAdd_loop (k # ks) (v # vs) added w =
     (let added' = (if v = None then added + 1 else added) in
      case txn_Set w k SetNilValue of
        Inl err \<Rightarrow> (Inl err, w)
      | Inr w1 \<Rightarrow> SAdd_loop ks vs added' w1)"

definition SAdd :: "env \<Rightarrow> SetObj \<Rightarrow> bytes list \<Rightarrow> world \<Rightarrow> (error + int64) \<times> SetObj \<times> world" where
  "SAdd env st members w =
     (let dkey = DataKey env (ID (Object (meta st)));
          ms = RemoveRepByMap members;
          ikeys = map (setItemKey dkey) ms in
      case BatchGetValues w ikeys of
        Inl err \<Rightarrow> (Inr 0, st, w)
      | Inr values \<Rightarrow>
          (case SAdd_loop ikeys values 0 w of
             (Inl err, w1) \<Rightarrow> (Inl err, st, w1)
           | (Inr added, w1) \<Rightarrow>
               (let st1 = st\<lparr>meta := (meta st)\<lparr>Len := Len (meta st) + added\<rparr>\<rparr> in
                case updateMeta env st1 w1 of
                  (Some err, st2, w2) \<Rightarrow> (Inl err, st2, w2)
                | (None, st2, w2) \<Rightarrow> (Inr added, st2, w2))))"

definition SCard :: "SetObj \<Rightarrow> error + int64" where
  "SCard st = (if \<not> exists st then Inr 0 else Inr (Len (meta st)))"

definition SIsmember :: "env \<Rightarrow> SetObj \<Rightarrow> bytes \<Rightarrow> world \<Rightarrow> error + int64" where
  "SIsmember env st member w =
     (if \<not> exists st then Inr 0
      else
        (let dkey = DataKey env (ID (Object (meta st)));
             ikey = setItemKey dkey member in
         case txn_Get w ikey of
           Inl err \<Rightarrow> if IsErrNotFound err then Inr 0 else Inl err
         | Inr v \<Rightarrow> if v \<noteq> SetNilValue then Inl ErrSetNilValue else Inr 1))"

text \<open>
  The loop of \<open>SPop\<close>: \<open>it\<close> is the cursor, \<open>Next()\<close> on it is the step to the tail.
\<close>

fun SPop_loop ::
  "bytes \<Rightarrow> bytes list \<Rightarrow> int64 \<Rightarrow> int64 \<Rightarrow> bytes list \<Rightarrow> world
     \<Rightarrow> (error + int64 \<times> bytes list) \<times> world" where
  "SPop_loop prefix [] count deleted members w = (Inr (deleted, members), w)"
| "SPop_loop prefix (k # it) count deleted members w =
     (if HasPrefix k prefix \<and> count \<noteq> 0 then
        (case txn_Delete w k of
           Inl err \<Rightarrow> (Inl err, w)
         | Inr w1 \<Rightarrow>
             (case next_err w1 k of
                Some err \<Rightarrow> (Inl err, w1)
              | None \<Rightarrow>
                  SPop_loop prefix it (count - 1) (deleted + 1)
                    (members @ [drop (length prefix) k]) w1))
      else (Inr (deleted, members), w))"

definition SPop ::
  "env \<Rightarrow> SetObj \<Rightarrow> int64 \<Rightarrow> world \<Rightarrow> (error + bytes list) \<times> SetObj \<times> world" where
  "SPop env st count w =
     (if \<not> exists st \<or> Len (meta st) = 0 then (Inr [], st, w)
      else
        (let dkey = DataKey env (ID (Object (meta st)));
             prefix = dkey @ [58];
             endPrefix = PrefixNext prefix in
         case txn_Iter w prefix endPrefix of
           Inl err \<Rightarrow> (Inl err, st, w)
         | Inr it \<Rightarrow>
             (case SPop_loop prefix it count 0 [] w of
                (Inl err, w1) \<Rightarrow> (Inl err, st, w1)
              | (Inr (deleted, members), w1) \<Rightarrow>
                  (let st1 = st\<lparr>meta := (meta st)\<lparr>Len := Len (meta st) - deleted\<rparr>\<rparr> in
                   case updateMeta env st1 w1 of
                     (Some err, st2, w2) \<Rightarrow> (Inl err, st2, w2)
                   | (None, st2, w2) \<Rightarrow> (Inr members, st2, w2)))))"

fun SRem_loop :: "bytes \<Rightarrow> bytes list \<Rightarrow> int64 \<Rightarrow> world \<Rightarrow> (error + int64) \<times> world" where
  "SRem_loop dkey [] num w = (Inr num, w)"
| "SRem_loop dkey (m # ms) num w =
     (let ikey = setItemKey dkey m in
      case txn_Get w ikey of
        Inl err \<Rightarrow> if IsErrNotFound err then SRem_loop dkey ms num w else (Inl err, w)
      | Inr v \<Rightarrow>
          if v = SetNilValue then
            (case txn_Delete w ikey of
               Inl err \<Rightarrow> (Inl err, w)
             | Inr w1 \<Rightarrow> SRem_loop dkey ms (num + 1) w1)
          else SRem_loop dkey ms num w)"

definition SRem ::
  "env \<Rightarrow> SetObj \<Rightarrow> bytes list \<Rightarrow> world \<Rightarrow> (error + int64) \<times> SetObj \<times> world" where
  "SRem env st members w =
     (if \<not> exists st then (Inr 0, st, w)
      else
        (let dkey = DataKey env (ID (Object (meta st)));
             ms = RemoveRepByMap members in
         case SRem_loop dkey ms 0 w of
           (Inl err, w1) \<Rightarrow> (Inl err, st, w1)
         | (Inr num, w1) \<Rightarrow>
             (let st1 = st\<lparr>meta := (meta st)\<lparr>Len := Len (meta st) - num\<rparr>\<rparr> in
              case updateMeta env st1 w1 of
                (Some err, st2, w2) \<Rightarrow> (Inl err, st2, w2)
              | (None, st2, w2) \<Rightarrow> (Inr num, st2, w2))))"

text \<open>
  \<open>SMove\<close>. The destination handle is local to the call: the \<open>destset.meta.Len++\<close> after
  its \<open>SAdd\<close> changes that handle only, and the handle is dropped at the return; of the
  destination only the world written by \<open>SAdd\<close> is kept. \<open>if err != nil\<close> after \<open>GetSet\<close>
  sees the errors \<open>GetSet\<close> returns; a panic inside \<open>GetSet\<close> (the slice bounds of
  \<open>DecodeSetMeta\<close>) is not a returned error: it unwinds through \<open>SMove\<close>, which has no
  \<open>recover\<close>, so \<open>Panic\<close> stays \<open>Panic\<close>.
\<close>

definition SMove ::
  "env \<Rightarrow> SetObj \<Rightarrow> bytes \<Rightarrow> bytes \<Rightarrow> world \<Rightarrow> (error + int64) \<times> SetObj \<times> world" where
  "SMove env st destination member w =
     (if \<not> exists st then (Inr 0, st, w)
      else
        (case SIsmember env st member w of
           Inl err \<Rightarrow> (Inl err, st, w)
         | Inr res \<Rightarrow>
             if res = 0 then (Inr 0, st, w)
             else
               (case GetSet env destination w of
                  (Inl err, w1) \<Rightarrow>
                    if err = Panic then (Inl Panic, st, w1) else (Inr 0, st, w1)
                | (Inr destset, w1) \<Rightarrow>
                    (case SIsmember env destset member w1 of
                       Inl err \<Rightarrow> (Inl err, st, w1)
                     | Inr res2 \<Rightarrow>
                         (case (if res2 = 0
                                then (case SAdd env destset [member] w1 of
                                        (Inl err, d, w2) \<Rightarrow> (Some err, w2)
                                      | (Inr n, d, w2) \<Rightarrow> (None, w2))
                                else (None, w1)) of
                            (Some err, w2) \<Rightarrow> (Inl err, st, w2)
                          | (None, w2) \<Rightarrow>
                              (let dkey = DataKey env (ID (Object (meta st)));
                                   ikey = setItemKey dkey member in
                               case txn_Delete w2 ikey of
                                 Inl err \<Rightarrow> (Inl err, st, w2)
                               | Inr w3 \<Rightarrow>
                                   (let st1 = st\<lparr>meta := (meta st)\<lparr>Len := Len (meta st) - 1\<rparr>\<rparr> in
                                    case updateMeta env st1 w3 of
                                      (Some err, st2, w4) \<Rightarrow> (Inl err, st2, w4)
                                    | (None, st2, w4) \<Rightarrow> (Inr 1, st2, w4))))))))"

section \<open>The state of a set in the store\<close>

text \<open>
  The store works without faults when none of its operations fails.
\<close>

definition no_faults :: "world \<Rightarrow> bool" where
  "no_faults w =
     ((\<forall>k. get_err w k = None) \<and> (\<forall>ks. batch_err w ks = None) \<and>
      (\<forall>k. set_err w k = None) \<and> (\<forall>k. del_err w k = None) \<and>
      (\<forall>k. iter_err w k = None) \<and> (\<forall>k. next_err w k = None))"

text \<open>
  The member keys of a set are the keys under its data prefix, \<open>DataKey\<close> of its
  identifier followed by \<open>':'\<close>. \<open>member_list\<close> is the list of the members that have a key
  in the store, in the store's bytewise order.
\<close>

definition data_prefix :: "env \<Rightarrow> SetObj \<Rightarrow> bytes" where
  "data_prefix env st = DataKey env (ID (Object (meta st))) @ [58]"

definition member_list :: "env \<Rightarrow> SetObj \<Rightarrow> world \<Rightarrow> bytes list" where
  "member_list env st w =
     map (drop (length (data_prefix env st)))
       (sort (remdups (filter (\<lambda>k. HasPrefix k (data_prefix env st)) (map fst (kv w)))))"

section \<open>An instance of the collaborators\<close>

text \<open>
  Modelled from the spec: the object codec and the key namespace are not in this file, and
  the spec fixes only their interface: a header of fixed length that carries the six fields
  of the object, a metadata key derived from the logical key and a data prefix derived from
  the object identifier. \<open>ref_env\<close> is one instance of that interface: a 42-byte header
  (16 bytes of identifier, three big-endian times, the two tags) and the key spaces
  \<open>M:\<close> and \<open>D:\<close>. The theorems below are stated for every \<open>env\<close>; the instance is where
  they are evaluated on concrete stores.
\<close>

definition ref_EncodeObject :: "Object \<Rightarrow> bytes" where
  "ref_EncodeObject obj =
     take 16 (ID obj @ replicate 16 0) @ PutUint64 (CreatedAt obj) @
     PutUint64 (UpdatedAt obj) @ PutUint64 (ExpireAt obj) @ [Type obj, Encoding obj]"

text \<open>
  Modelled from the spec: the decoder of the instance; it fails with \<open>ErrInvalidLength\<close> on
  \<open>nil\<close> and on fewer bytes than the header has.
\<close>

definition ref_DecodeObject :: "bytes option \<Rightarrow> error + Object" where
  "ref_DecodeObject b =
     (case b of
        None \<Rightarrow> Inl ErrInvalidLength
      | Some bs \<Rightarrow>
          if length bs < 42 then Inl ErrInvalidLength
          else Inr \<lparr>ID = take 16 bs,
                    CreatedAt = Uint64 (take 8 (drop 16 bs)),
                    UpdatedAt = Uint64 (take 8 (drop 24 bs)),
                    ExpireAt = Uint64 (take 8 (drop 32 bs)),
                    Type = bs ! 40, Encoding = bs ! 41\<rparr>)"

text \<open>
  Modelled from the spec: the instance, with the key spaces \<open>M:\<close> and \<open>D:\<close> and the tags
  2 (set) and 4 (hash table).
\<close>

definition ref_env :: env where
  "ref_env =
     \<lparr>MetaKey = (\<lambda>k. [77, 58] @ k), DataKey = (\<lambda>i. [68, 58] @ i),
      EncodeObject = ref_EncodeObject, DecodeObject = ref_DecodeObject,
      ObjectEncodingLength = 42, ObjectSet = 2, ObjectEncodingHT = 4\<rparr>"

text \<open>
  A world with the given store content in which no operation of the store fails, the clock
  reads 100, 101, ... and the identifiers are 16 equal bytes.
\<close>

definition ref_world :: "(bytes \<times> bytes) list \<Rightarrow> world" where
  "ref_world content =
     \<lparr>kv = content, get_err = (\<lambda>k. None), batch_err = (\<lambda>ks. None),
      set_err = (\<lambda>k. None), del_err = (\<lambda>k. None), iter_err = (\<lambda>k. None),
      next_err = (\<lambda>k. None), clock = (\<lambda>n. 100 + of_nat n), ticks = 0,
      uuids = (\<lambda>n. replicate 16 (of_nat n)), issued = 0\<rparr>"

text \<open>The header of a set with identifier 16 times \<open>i\<close>, created and updated at 5.\<close>

definition ref_object :: "byte \<Rightarrow> int64 \<Rightarrow> Object" where
  "ref_object i expire =
     \<lparr>ID = replicate 16 i, CreatedAt = 5, UpdatedAt = 5, ExpireAt = expire,
      Type = 2, Encoding = 4\<rparr>"

definition ref_set :: "byte \<Rightarrow> bytes \<Rightarrow> int64 \<Rightarrow> SetObj" where
  "ref_set i k n = \<lparr>meta = \<lparr>Object = ref_object i 0, Len = n\<rparr>, key = k, exists = True\<rparr>"

text \<open>
  The store content of one set of \<open>ref_env\<close>: its metadata record under the logical key
  \<open>k\<close> and one key with the value \<open>SetNilValue\<close> for each member.
\<close>

definition ref_store ::
  "byte \<Rightarrow> bytes \<Rightarrow> int64 \<Rightarrow> int64 \<Rightarrow> bytes list \<Rightarrow> (bytes \<times> bytes) list" where
  "ref_store i k expire n members =
     (MetaKey ref_env k, encodeSetMeta ref_env \<lparr>Object = ref_object i expire, Len = n\<rparr>) #
     map (\<lambda>m. (setItemKey (DataKey ref_env (replicate 16 i)) m, SetNilValue)) members"

section \<open>Properties of the store model\<close>

lemma no_faults_kv_update [simp]: "no_faults (w\<lparr>kv := c\<rparr>) = no_faults w"
  by (simp add: no_faults_def)

lemma no_faults_ticks_update [simp]: "no_faults (w\<lparr>ticks := c\<rparr>) = no_faults w"
  by (simp add: no_faults_def)

lemma no_faults_issued_update [simp]: "no_faults (w\<lparr>issued := c\<rparr>) = no_faults w"
  by (simp add: no_faults_def)

lemma no_faults_ref_world [simp]: "no_faults (ref_world content)"
  by (simp add: no_faults_def ref_world_def)

lemma length_PutUint64 [simp]: "length (PutUint64 v) = 8"
  by (simp add: PutUint64_def)

lemma Uint64_PutUint64 [simp]: "Uint64 (PutUint64 v) = v"
proof (rule bit_word_eqI)
  fix n
  assume "n < LENGTH(64)"
  then consider "n < 8" | "8 \<le> n \<and> n < 16" | "16 \<le> n \<and> n < 24" | "24 \<le> n \<and> n < 32"
    | "32 \<le> n \<and> n < 40" | "40 \<le> n \<and> n < 48" | "48 \<le> n \<and> n < 56" | "56 \<le> n \<and> n < 64"
    by fastforce
  then show "bit (Uint64 (PutUint64 v)) n = bit v n"
    by cases (auto simp add: Uint64_def PutUint64_def bit_simps)
qed

lemma map_of_filter_fst_neq: "map_of (filter (\<lambda>p. fst p \<noteq> k) xs) = (map_of xs)(k := None)"
  by (induction xs) (auto simp add: fun_eq_iff)

lemma txn_Set_ok:
  "set_err w k = None \<Longrightarrow>
   txn_Set w k v = Inr (w\<lparr>kv := (k, v) # filter (\<lambda>p. fst p \<noteq> k) (kv w)\<rparr>)"
  by (simp add: txn_Set_def)

lemma txn_Delete_ok:
  "del_err w k = None \<Longrightarrow>
   txn_Delete w k = Inr (w\<lparr>kv := filter (\<lambda>p. fst p \<noteq> k) (kv w)\<rparr>)"
  by (simp add: txn_Delete_def)

lemma HasPrefix_append [simp]: "HasPrefix (p @ m) p"
  by (simp add: HasPrefix_def)

lemma HasPrefix_iff: "HasPrefix k p \<longleftrightarrow> (\<exists>m. k = p @ m)"
  by (metis HasPrefix_append HasPrefix_def append_take_drop_id)

lemma setItemKey_prefix: "setItemKey (DataKey env (ID (Object (meta st)))) m = data_prefix env st @ m"
  by (simp add: setItemKey_def data_prefix_def)

lemma set_member_list:
  "set (member_list env st w) = {m. data_prefix env st @ m \<in> fst ` set (kv w)}"
proof -
  let ?p = "data_prefix env st"
  have "set (member_list env st w) = drop (length ?p) ` {k \<in> fst ` set (kv w). HasPrefix k ?p}"
    by (auto simp add: member_list_def)
  also have "\<dots> = {m. ?p @ m \<in> fst ` set (kv w)}"
  proof (intro set_eqI iffI)
    fix m assume "m \<in> drop (length ?p) ` {k \<in> fst ` set (kv w). HasPrefix k ?p}"
    then obtain k where k: "k \<in> fst ` set (kv w)" "HasPrefix k ?p" "m = drop (length ?p) k"
      by blast
    then obtain r where "k = ?p @ r" by (auto simp add: HasPrefix_iff)
    with k show "m \<in> {m. ?p @ m \<in> fst ` set (kv w)}" by simp
  next
    fix m assume "m \<in> {m. ?p @ m \<in> fst ` set (kv w)}"
    then have "?p @ m \<in> {k \<in> fst ` set (kv w). HasPrefix k ?p}" by simp
    then have "drop (length ?p) (?p @ m) \<in> drop (length ?p) ` {k \<in> fst ` set (kv w). HasPrefix k ?p}"
      by (rule imageI)
    then show "m \<in> drop (length ?p) ` {k \<in> fst ` set (kv w). HasPrefix k ?p}" by simp
  qed
  finally show ?thesis .
qed

lemma member_present_iff:
  "m \<in> set (member_list env st w) \<longleftrightarrow> map_of (kv w) (data_prefix env st @ m) \<noteq> None"
  by (simp add: set_member_list map_of_eq_None_iff)

lemma distinct_member_list: "distinct (member_list env st w)"
  unfolding member_list_def
  by (rule distinct_map [THEN iffD2]) (auto simp add: inj_on_def HasPrefix_iff)

lemma RemoveRepByMap_loop_props:
  "distinct result \<Longrightarrow> uniq = set result \<Longrightarrow>
   distinct (RemoveRepByMap_loop ms result uniq) \<and>
   set (RemoveRepByMap_loop ms result uniq) = set result \<union> set ms"
  by (induction ms result uniq rule: RemoveRepByMap_loop.induct) auto

lemma distinct_RemoveRepByMap: "distinct (RemoveRepByMap ms)"
  by (simp add: RemoveRepByMap_def RemoveRepByMap_loop_props)

lemma set_RemoveRepByMap: "set (RemoveRepByMap ms) = set ms"
  by (simp add: RemoveRepByMap_def RemoveRepByMap_loop_props)

section \<open>Adding members\<close>

lemma sint_eq_int_imp: "sint (x :: int64) = int n \<Longrightarrow> x = of_nat n"
  by (metis of_int_sint scast_id of_int_of_nat_eq)

lemma sint_of_nat_small: "n < 2 ^ 63 \<Longrightarrow> sint (of_nat n :: int64) = int n"
  by (simp add: signed_of_nat signed_take_bit_int_eq_self)

lemma SAdd_loop_ok:
  "no_faults w \<Longrightarrow> length vs = length ks \<Longrightarrow>
   \<exists>w'. SAdd_loop ks vs added w = (Inr (added + of_nat (length (filter (\<lambda>v. v = None) vs))), w') \<and>
        no_faults w' \<and> clock w' = clock w \<and> ticks w' = ticks w \<and>
        map_of (kv w') = (\<lambda>k. if k \<in> set ks then Some SetNilValue else map_of (kv w) k)"
proof (induction ks arbitrary: vs added w)
  case Nil
  then show ?case by simp
next
  case (Cons k ks)
  then obtain v vs' where vs: "vs = v # vs'" by (cases vs) auto
  let ?w1 = "w\<lparr>kv := (k, SetNilValue) # filter (\<lambda>p. fst p \<noteq> k) (kv w)\<rparr>"
  have set_ok: "txn_Set w k SetNilValue = Inr ?w1"
    using Cons.prems(1) by (simp add: txn_Set_ok no_faults_def)
  have nf1: "no_faults ?w1" using Cons.prems(1) by simp
  have len: "length vs' = length ks" using Cons.prems(2) vs by simp
  from Cons.IH [OF nf1 len, of "if v = None then added + 1 else added"]
  obtain w' where w': "SAdd_loop ks vs' (if v = None then added + 1 else added) ?w1 =
       (Inr ((if v = None then added + 1 else added) + of_nat (length (filter (\<lambda>v. v = None) vs'))), w')"
     "no_faults w'" "clock w' = clock ?w1" "ticks w' = ticks ?w1"
     "map_of (kv w') = (\<lambda>k'. if k' \<in> set ks then Some SetNilValue else map_of (kv ?w1) k')"
    by blast
  have "SAdd_loop (k # ks) vs added w =
      (Inr (added + of_nat (length (filter (\<lambda>v. v = None) vs))), w')"
    using w'(1) set_ok vs by (simp add: Let_def)
  moreover have "map_of (kv w') = (\<lambda>k'. if k' \<in> set (k # ks) then Some SetNilValue else map_of (kv w) k')"
    using w'(5) by (auto simp add: fun_eq_iff map_of_filter_fst_neq)
  ultimately show ?case using w'(2,3,4) by auto
qed

lemma updateMeta_ok:
  "set_err w (MetaKey env (key st)) = None \<Longrightarrow>
   updateMeta env st w =
     (None,
      st\<lparr>meta := (meta st)\<lparr>Object := (Object (meta st))\<lparr>UpdatedAt := clock w (ticks w)\<rparr>\<rparr>,
          exists := True\<rparr>,
      w\<lparr>kv := (MetaKey env (key st), encodeSetMeta env (meta st)) #
               filter (\<lambda>p. fst p \<noteq> MetaKey env (key st)) (kv w),
         ticks := Suc (ticks w)\<rparr>)"
  by (simp add: updateMeta_def txn_Set_def Now_def)

lemma count_absent:
  "length (filter (\<lambda>v. v = None)
      (map (map_of (kv w)) (map (setItemKey (DataKey env (ID (Object (meta st))))) (RemoveRepByMap members))))
   = card (set members - set (member_list env st w))"
proof -
  let ?ms = "RemoveRepByMap members"
  have "length (filter (\<lambda>v. v = None)
      (map (map_of (kv w)) (map (setItemKey (DataKey env (ID (Object (meta st))))) ?ms)))
     = length (filter (\<lambda>m. m \<notin> set (member_list env st w)) ?ms)"
    by (simp add: filter_map o_def setItemKey_prefix member_present_iff)
  also have "\<dots> = card ({m. m \<notin> set (member_list env st w)} \<inter> set ?ms)"
    by (rule distinct_length_filter) (rule distinct_RemoveRepByMap)
  also have "{m. m \<notin> set (member_list env st w)} \<inter> set ?ms = set members - set (member_list env st w)"
    by (auto simp add: set_RemoveRepByMap)
  finally show ?thesis .
qed

lemma SAdd_ok:
  fixes env st members w
  defines "added \<equiv> (of_nat (card (set members - set (member_list env st w))) :: int64)"
  assumes "no_faults w"
  shows "\<exists>st' w'. SAdd env st members w = (Inr added, st', w') \<and>
           exists st' \<and> key st' = key st \<and>
           Len (meta st') = Len (meta st) + added \<and>
           ID (Object (meta st')) = ID (Object (meta st)) \<and>
           map_of (kv w') (MetaKey env (key st)) =
             Some (encodeSetMeta env ((meta st)\<lparr>Len := Len (meta st) + added\<rparr>)) \<and>
           (\<forall>k. k \<noteq> MetaKey env (key st) \<longrightarrow>
              map_of (kv w') k =
                (if k \<in> setItemKey (DataKey env (ID (Object (meta st)))) ` set members
                 then Some SetNilValue else map_of (kv w) k)) \<and>
           no_faults w'"
proof -
  let ?dkey = "DataKey env (ID (Object (meta st)))"
  let ?ikeys = "map (setItemKey ?dkey) (RemoveRepByMap members)"
  let ?vals = "map (map_of (kv w)) ?ikeys"
  have bg: "BatchGetValues w ?ikeys = Inr ?vals"
    using \<open>no_faults w\<close> by (simp add: BatchGetValues_def no_faults_def)
  have len: "length ?vals = length ?ikeys" by simp
  have cnt: "0 + of_nat (length (filter (\<lambda>v. v = None) ?vals)) = added"
    unfolding added_def by (simp only: count_absent add_0_left)
  from SAdd_loop_ok [OF \<open>no_faults w\<close> len, of 0]
  obtain w1 where w1: "SAdd_loop ?ikeys ?vals 0 w = (Inr added, w1)" "no_faults w1"
      "clock w1 = clock w" "ticks w1 = ticks w"
      "map_of (kv w1) = (\<lambda>k. if k \<in> set ?ikeys then Some SetNilValue else map_of (kv w) k)"
    unfolding cnt by blast
  let ?st1 = "st\<lparr>meta := (meta st)\<lparr>Len := Len (meta st) + added\<rparr>\<rparr>"
  have um: "updateMeta env ?st1 w1 =
     (None,
      ?st1\<lparr>meta := (meta ?st1)\<lparr>Object := (Object (meta ?st1))\<lparr>UpdatedAt := clock w1 (ticks w1)\<rparr>\<rparr>,
          exists := True\<rparr>,
      w1\<lparr>kv := (MetaKey env (key ?st1), encodeSetMeta env (meta ?st1)) #
               filter (\<lambda>p. fst p \<noteq> MetaKey env (key ?st1)) (kv w1),
         ticks := Suc (ticks w1)\<rparr>)"
    by (rule updateMeta_ok) (use w1(2) in \<open>simp add: no_faults_def\<close>)
  have "SAdd env st members w = (Inr added, fst (snd (updateMeta env ?st1 w1)), snd (snd (updateMeta env ?st1 w1)))"
    unfolding SAdd_def Let_def bg using w1(1) um by simp
  then show ?thesis
    unfolding um using w1(2,5)
    by (auto simp add: map_of_filter_fst_neq set_RemoveRepByMap)
qed

section \<open>The metadata codec\<close>

text \<open>
  C6. Decoding an encoded metadata record gives the record back: header and \<open>Len\<close>. The
  object codec is a collaborator; what is asked of it is that the header it writes has the
  fixed header length and that it reads that header back from the front of the record.
\<close>

theorem encode_decode_roundtrip:
  assumes "length (EncodeObject env (Object m)) = ObjectEncodingLength env"
    and "DecodeObject env (Some (encodeSetMeta env m)) = Inr (Object m)"
  shows "DecodeSetMeta env (Some (encodeSetMeta env m)) = Inr m"
proof -
  have "slice_from (encodeSetMeta env m) (ObjectEncodingLength env) = Inr (PutUint64 (Len m))"
    using assms(1) by (simp add: slice_from_def encodeSetMeta_def)
  then show ?thesis
    using assms(2) by (simp add: DecodeSetMeta_def slice_to_def)
qed

theorem encode_decode_roundtrip_witness:
  "length (EncodeObject ref_env (Object \<lparr>Object = ref_object 1 0, Len = 3\<rparr>))
     = ObjectEncodingLength ref_env \<and>
   DecodeObject ref_env (Some (encodeSetMeta ref_env \<lparr>Object = ref_object 1 0, Len = 3\<rparr>))
     = Inr (Object \<lparr>Object = ref_object 1 0, Len = 3\<rparr>) \<and>
   DecodeSetMeta ref_env (Some (encodeSetMeta ref_env \<lparr>Object = ref_object 1 0, Len = 3\<rparr>))
     = Inr \<lparr>Object = ref_object 1 0, Len = 3\<rparr>"
proof -
  have h1: "length (EncodeObject ref_env (Object \<lparr>Object = ref_object 1 0, Len = 3\<rparr>))
      = ObjectEncodingLength ref_env"
    by code_simp
  have h2: "DecodeObject ref_env
       (Some (encodeSetMeta ref_env \<lparr>Object = ref_object 1 0, Len = 3\<rparr>))
      = Inr (Object \<lparr>Object = ref_object 1 0, Len = 3\<rparr>)"
    by code_simp
  from encode_decode_roundtrip [OF h1 h2] h1 h2 show ?thesis
    by simp
qed

text \<open>
  C7. \<open>DecodeSetMeta\<close> does not keep its accesses in bounds: on a slice that is not \<open>nil\<close>
  and shorter than the header, \<open>b[ObjectEncodingLength:]\<close> in the length test itself is
  out of range, and the call panics instead of failing with \<open>ErrInvalidLength\<close>.
\<close>

theorem DecodeSetMeta_short_input_panics:
  "length bs < ObjectEncodingLength env \<Longrightarrow> DecodeSetMeta env (Some bs) = Inl Panic"
  by (simp add: DecodeSetMeta_def slice_from_def)

theorem DecodeSetMeta_short_input_panics_witness:
  "length [0 :: byte] < ObjectEncodingLength ref_env \<and>
   DecodeSetMeta ref_env (Some [0]) = Inl Panic"
proof -
  have h: "length [0 :: byte] < ObjectEncodingLength ref_env"
    by (simp add: ref_env_def)
  from DecodeSetMeta_short_input_panics [OF h] h show ?thesis
    by simp
qed

section \<open>SAdd\<close>

text \<open>
  C5. When the store does not fail, \<open>SAdd\<close> returns the number of distinct members of the
  list that had no key in the store, and \<open>SCard\<close> on the handle afterwards is the number
  of members in the union of the members before and the members of the list, for a handle
  whose \<open>Len\<close> counts the member keys and as long as the count fits an \<open>int64\<close>. In
  particular the count returned is 0 when every member of the list was present. The store
  afterwards holds the handle's metadata record with that \<open>SCard\<close> as \<open>Len\<close> under the
  metadata key, \<open>SetNilValue\<close> under the key of every member of the list, and what it
  held before under every other key.
\<close>

theorem SAdd_counts_distinct_absent:
  assumes "no_faults w"
    and "sint (Len (meta st)) = int (length (member_list env st w))"
    and "card (set (member_list env st w) \<union> set members) < 2 ^ 63"
  shows "\<exists>added st' w' c. SAdd env st members w = (Inr added, st', w') \<and>
      sint added = int (card (set members - set (member_list env st w))) \<and>
      (set members \<subseteq> set (member_list env st w) \<longrightarrow> added = 0) \<and>
      SCard st' = Inr c \<and>
      sint c = int (card (set (member_list env st w) \<union> set members)) \<and>
      map_of (kv w') (MetaKey env (key st)) =
        Some (encodeSetMeta env ((meta st)\<lparr>Len := c\<rparr>)) \<and>
      (\<forall>k. k \<noteq> MetaKey env (key st) \<longrightarrow>
         map_of (kv w') k =
           (if k \<in> setItemKey (DataKey env (ID (Object (meta st)))) ` set members
            then Some SetNilValue else map_of (kv w) k))"
proof -
  let ?P = "set (member_list env st w)"
  let ?n = "card (set members - ?P)"
  from SAdd_ok [OF assms(1), of env st members]
  obtain st' w' where r: "SAdd env st members w = (Inr (of_nat ?n), st', w')" "exists st'"
      "Len (meta st') = Len (meta st) + of_nat ?n"
      "map_of (kv w') (MetaKey env (key st)) =
         Some (encodeSetMeta env ((meta st)\<lparr>Len := Len (meta st) + of_nat ?n\<rparr>))"
      "\<forall>k. k \<noteq> MetaKey env (key st) \<longrightarrow>
         map_of (kv w') k =
           (if k \<in> setItemKey (DataKey env (ID (Object (meta st)))) ` set members
            then Some SetNilValue else map_of (kv w) k)"
    by blast
  have p: "map_of (kv w') (MetaKey env (key st)) =
      Some (encodeSetMeta env ((meta st)\<lparr>Len := Len (meta st')\<rparr>))"
    using r(3,4) by simp
  have un: "card (?P \<union> set members) = card ?P + ?n"
  proof -
    have "?P \<union> set members = ?P \<union> (set members - ?P)" by blast
    moreover have "card (?P \<union> (set members - ?P)) = card ?P + ?n"
      by (rule card_Un_disjoint) auto
    ultimately show ?thesis by simp
  qed
  have cP: "card ?P = length (member_list env st w)"
    by (simp add: distinct_card distinct_member_list)
  have "?n < 2 ^ 63" using un assms(3) by simp
  then have a: "sint (of_nat ?n :: int64) = int ?n" by (rule sint_of_nat_small)
  have "Len (meta st') = of_nat (card (?P \<union> set members))"
    using r(3) sint_eq_int_imp [OF assms(2)] un cP by simp
  then have c: "sint (Len (meta st')) = int (card (?P \<union> set members))"
    using sint_of_nat_small [OF assms(3)] by simp
  have z: "set members \<subseteq> ?P \<longrightarrow> (of_nat ?n :: int64) = 0"
    by (auto simp add: Diff_eq_empty_iff [THEN iffD2])
  have sc: "SCard st' = Inr (Len (meta st'))" using r(2) by (simp add: SCard_def)
  show ?thesis
    by (intro exI [of _ "of_nat ?n"] exI [of _ st'] exI [of _ w'] exI [of _ "Len (meta st')"])
      (use r(1,5) a c z sc p in simp)
qed

theorem SAdd_counts_distinct_absent_witness:
  "no_faults (ref_world (ref_store 1 [107] 0 1 [[97]])) \<and>
   sint (Len (meta (ref_set 1 [107] 1))) =
     int (length (member_list ref_env (ref_set 1 [107] 1) (ref_world (ref_store 1 [107] 0 1 [[97]])))) \<and>
   card (set (member_list ref_env (ref_set 1 [107] 1) (ref_world (ref_store 1 [107] 0 1 [[97]])))
          \<union> set [[97], [98], [97]]) < 2 ^ 63 \<and>
   (\<exists>added st' w' c.
      SAdd ref_env (ref_set 1 [107] 1) [[97], [98], [97]] (ref_world (ref_store 1 [107] 0 1 [[97]]))
        = (Inr added, st', w') \<and>
      sint added = int (card (set [[97], [98], [97]] -
         set (member_list ref_env (ref_set 1 [107] 1) (ref_world (ref_store 1 [107] 0 1 [[97]]))))) \<and>
      (set [[97], [98], [97]] \<subseteq>
         set (member_list ref_env (ref_set 1 [107] 1) (ref_world (ref_store 1 [107] 0 1 [[97]])))
         \<longrightarrow> added = 0) \<and>
      SCard st' = Inr c \<and>
      sint c = int (card (set (member_list ref_env (ref_set 1 [107] 1)
                   (ref_world (ref_store 1 [107] 0 1 [[97]]))) \<union> set [[97], [98], [97]])) \<and>
      map_of (kv w') (MetaKey ref_env (key (ref_set 1 [107] 1))) =
        Some (encodeSetMeta ref_env ((meta (ref_set 1 [107] 1))\<lparr>Len := c\<rparr>)) \<and>
      (\<forall>k. k \<noteq> MetaKey ref_env (key (ref_set 1 [107] 1)) \<longrightarrow>
         map_of (kv w') k =
           (if k \<in> setItemKey (DataKey ref_env (ID (Object (meta (ref_set 1 [107] 1))))) `
                   set [[97], [98], [97]]
            then Some SetNilValue
            else map_of (kv (ref_world (ref_store 1 [107] 0 1 [[97]]))) k))) \<and>
   map_of (kv (snd (snd (SAdd ref_env (ref_set 1 [107] 1) [[97], [98], [97]]
      (ref_world (ref_store 1 [107] 0 1 [[97]])))))) (MetaKey ref_env [107])
     = Some (encodeSetMeta ref_env \<lparr>Object = ref_object 1 0, Len = 2\<rparr>) \<and>
   map_of (kv (snd (snd (SAdd ref_env (ref_set 1 [107] 1) [[97], [98], [97]]
      (ref_world (ref_store 1 [107] 0 1 [[97]]))))))
      (setItemKey (DataKey ref_env (replicate 16 1)) [98]) = Some SetNilValue \<and>
   map_of (kv (ref_world (ref_store 1 [107] 0 1 [[97]])))
      (setItemKey (DataKey ref_env (replicate 16 1)) [98]) = None \<and>
   fst (SAdd ref_env (ref_set 1 [107] 1) [[97], [98], [97]] (ref_world (ref_store 1 [107] 0 1 [[97]])))
     = Inr 1 \<and>
   SCard (fst (snd (SAdd ref_env (ref_set 1 [107] 1) [[97], [98], [97]]
      (ref_world (ref_store 1 [107] 0 1 [[97]]))))) = Inr 2 \<and>
   set [[97], [97]] \<subseteq>
     set (member_list ref_env (ref_set 1 [107] 1) (ref_world (ref_store 1 [107] 0 1 [[97]]))) \<and>
   fst (SAdd ref_env (ref_set 1 [107] 1) [[97], [97]] (ref_world (ref_store 1 [107] 0 1 [[97]])))
     = Inr 0"
proof -
  let ?w = "ref_world (ref_store 1 [107] 0 1 [[97]])"
  let ?st = "ref_set 1 [107] 1"
  have h1: "no_faults ?w"
    by simp
  have h2: "sint (Len (meta ?st)) = int (length (member_list ref_env ?st ?w))"
    by code_simp
  have "card (set (member_list ref_env ?st ?w) \<union> set [[97], [98], [97]]) = 2"
    by code_simp
  then have h3: "card (set (member_list ref_env ?st ?w) \<union> set [[97], [98], [97]]) < 2 ^ 63"
    by simp
  have e1: "fst (SAdd ref_env ?st [[97], [98], [97]] ?w) = Inr 1"
    by code_simp
  have e2: "SCard (fst (snd (SAdd ref_env ?st [[97], [98], [97]] ?w))) = Inr 2"
    by code_simp
  have e4: "map_of (kv (snd (snd (SAdd ref_env ?st [[97], [98], [97]] ?w)))) (MetaKey ref_env [107])
      = Some (encodeSetMeta ref_env \<lparr>Object = ref_object 1 0, Len = 2\<rparr>)"
    by code_simp
  have e5: "map_of (kv (snd (snd (SAdd ref_env ?st [[97], [98], [97]] ?w))))
      (setItemKey (DataKey ref_env (replicate 16 1)) [98]) = Some SetNilValue"
    by code_simp
  have e6: "map_of (kv ?w) (setItemKey (DataKey ref_env (replicate 16 1)) [98]) = None"
    by code_simp
  have "card (set (member_list ref_env ?st ?w) \<union> set [[97], [97]]) = 1"
    by code_simp
  then have h3': "card (set (member_list ref_env ?st ?w) \<union> set [[97], [97]]) < 2 ^ 63"
    by simp
  have sub: "set [[97], [97]] \<subseteq> set (member_list ref_env ?st ?w)"
    by code_simp
  from SAdd_counts_distinct_absent [OF h1 h2 h3'] sub
  have e3: "fst (SAdd ref_env ?st [[97], [97]] ?w) = Inr 0"
    by auto
  from SAdd_counts_distinct_absent [OF h1 h2 h3] h1 h2 h3 e1 e2 e4 e5 e6 sub e3 show ?thesis
    by blast
qed

text \<open>
  C8. The record \<open>SAdd\<close> persists is the encoding of the handle's metadata with \<open>Len\<close>
  adjusted and nothing else changed: its \<open>UpdatedAt\<close> is the one the handle held before
  the operation. \<open>updateMeta\<close> encodes the record before it reads the clock.
\<close>

theorem SAdd_persists_old_UpdatedAt:
  assumes "no_faults w"
  shows "\<exists>added st' w'. SAdd env st members w = (Inr added, st', w') \<and>
      map_of (kv w') (MetaKey env (key st)) =
        Some (encodeSetMeta env ((meta st)\<lparr>Len := Len (meta st) + added\<rparr>))"
  using SAdd_ok [OF assms, of env st members] by blast

theorem SAdd_persists_old_UpdatedAt_witness:
  "no_faults (ref_world (ref_store 1 [107] 0 1 [[97]])) \<and>
   (\<exists>added st' w'.
      SAdd ref_env (ref_set 1 [107] 1) [[98]] (ref_world (ref_store 1 [107] 0 1 [[97]]))
        = (Inr added, st', w') \<and>
      map_of (kv w') (MetaKey ref_env (key (ref_set 1 [107] 1))) =
        Some (encodeSetMeta ref_env
          ((meta (ref_set 1 [107] 1))\<lparr>Len := Len (meta (ref_set 1 [107] 1)) + added\<rparr>))) \<and>
   UpdatedAt (Object (meta (ref_set 1 [107] 1))) = 5 \<and>
   fst (Now (ref_world (ref_store 1 [107] 0 1 [[97]]))) = 100 \<and>
   (case SAdd ref_env (ref_set 1 [107] 1) [[98]] (ref_world (ref_store 1 [107] 0 1 [[97]])) of
      (r, st', w') \<Rightarrow>
        r = Inr 1 \<and>
        map_of (kv w') (MetaKey ref_env [107]) =
          Some (encodeSetMeta ref_env \<lparr>Object = ref_object 1 0, Len = 2\<rparr>) \<and>
        UpdatedAt (ref_object 1 0) = 5)"
proof -
  have h1: "no_faults (ref_world (ref_store 1 [107] 0 1 [[97]]))"
    by simp
  have e1: "UpdatedAt (Object (meta (ref_set 1 [107] 1))) = 5"
    by code_simp
  have e2: "fst (Now (ref_world (ref_store 1 [107] 0 1 [[97]]))) = 100"
    by code_simp
  have e3: "(case SAdd ref_env (ref_set 1 [107] 1) [[98]] (ref_world (ref_store 1 [107] 0 1 [[97]])) of
      (r, st', w') \<Rightarrow>
        r = Inr 1 \<and>
        map_of (kv w') (MetaKey ref_env [107]) =
          Some (encodeSetMeta ref_env \<lparr>Object = ref_object 1 0, Len = 2\<rparr>) \<and>
        UpdatedAt (ref_object 1 0) = 5)"
    by code_simp
  from SAdd_persists_old_UpdatedAt [OF h1] h1 e1 e2 e3 show ?thesis
    by blast
qed

section \<open>Store errors\<close>

text \<open>
  C1. Two errors of the store are not surfaced. When the batch fetch of \<open>SAdd\<close> fails,
  \<open>SAdd\<close> returns 0 and no error, and leaves handle and store as they were. When loading
  the destination handle in \<open>SMove\<close> fails, \<open>SMove\<close> returns 0 and no error. The error
  \<open>e\<close> is any error value a call returns; a panic is none.
\<close>

theorem SAdd_SMove_swallow_store_error:
  assumes "e \<noteq> Panic"
  shows "(batch_err w (map (setItemKey (DataKey env (ID (Object (meta st))))) (RemoveRepByMap members))
      = Some e \<longrightarrow>
    SAdd env st members w = (Inr 0, st, w)) \<and>
   (exists st \<and> SIsmember env st member w = Inr 1 \<and> fst (GetSet env destination w) = Inl e \<longrightarrow>
    fst (SMove env st destination member w) = Inr 0)"
proof (intro conjI impI)
  assume "batch_err w (map (setItemKey (DataKey env (ID (Object (meta st))))) (RemoveRepByMap members))
      = Some e"
  then show "SAdd env st members w = (Inr 0, st, w)"
    by (simp add: SAdd_def BatchGetValues_def)
next
  assume a: "exists st \<and> SIsmember env st member w = Inr 1 \<and> fst (GetSet env destination w) = Inl e"
  then obtain w1 where "GetSet env destination w = (Inl e, w1)"
    by (cases "GetSet env destination w") auto
  with a assms show "fst (SMove env st destination member w) = Inr 0"
    by (simp add: SMove_def)
qed

theorem SAdd_SMove_swallow_store_error_witness:
  "ErrStore 1 \<noteq> Panic \<and> ErrStore 2 \<noteq> Panic \<and>
   batch_err ((ref_world (ref_store 1 [107] 0 1 [[97]]))\<lparr>batch_err := (\<lambda>ks. Some (ErrStore 1))\<rparr>)
      (map (setItemKey (DataKey ref_env (ID (Object (meta (ref_set 1 [107] 1))))))
         (RemoveRepByMap [[98]])) = Some (ErrStore 1) \<and>
   SAdd ref_env (ref_set 1 [107] 1) [[98]]
      ((ref_world (ref_store 1 [107] 0 1 [[97]]))\<lparr>batch_err := (\<lambda>ks. Some (ErrStore 1))\<rparr>)
     = (Inr 0, ref_set 1 [107] 1,
        (ref_world (ref_store 1 [107] 0 1 [[97]]))\<lparr>batch_err := (\<lambda>ks. Some (ErrStore 1))\<rparr>) \<and>
   exists (ref_set 1 [107] 1) \<and>
   SIsmember ref_env (ref_set 1 [107] 1) [97]
      ((ref_world (ref_store 1 [107] 0 1 [[97]]))
         \<lparr>get_err := (\<lambda>k. if k = MetaKey ref_env [100] then Some (ErrStore 2) else None)\<rparr>) = Inr 1 \<and>
   fst (GetSet ref_env [100]
      ((ref_world (ref_store 1 [107] 0 1 [[97]]))
         \<lparr>get_err := (\<lambda>k. if k = MetaKey ref_env [100] then Some (ErrStore 2) else None)\<rparr>))
     = Inl (ErrStore 2) \<and>
   fst (SMove ref_env (ref_set 1 [107] 1) [100] [97]
      ((ref_world (ref_store 1 [107] 0 1 [[97]]))
         \<lparr>get_err := (\<lambda>k. if k = MetaKey ref_env [100] then Some (ErrStore 2) else None)\<rparr>)) = Inr 0"
proof -
  let ?wa = "(ref_world (ref_store 1 [107] 0 1 [[97]]))\<lparr>batch_err := (\<lambda>ks. Some (ErrStore 1))\<rparr>"
  let ?wb = "(ref_world (ref_store 1 [107] 0 1 [[97]]))
         \<lparr>get_err := (\<lambda>k. if k = MetaKey ref_env [100] then Some (ErrStore 2) else None)\<rparr>"
  have h1: "batch_err ?wa
      (map (setItemKey (DataKey ref_env (ID (Object (meta (ref_set 1 [107] 1))))))
         (RemoveRepByMap [[98]])) = Some (ErrStore 1)"
    by simp
  have h2: "exists (ref_set 1 [107] 1)"
    by (simp add: ref_set_def)
  have h3: "SIsmember ref_env (ref_set 1 [107] 1) [97] ?wb = Inr 1"
    by code_simp
  have h4: "fst (GetSet ref_env [100] ?wb) = Inl (ErrStore 2)"
    by code_simp
  have p1: "ErrStore 1 \<noteq> Panic" and p2: "ErrStore 2 \<noteq> Panic"
    by simp_all
  from SAdd_SMove_swallow_store_error
    [OF p1, of ?wa ref_env "ref_set 1 [107] 1" "[[98]]"]
    h1
  have c1: "SAdd ref_env (ref_set 1 [107] 1) [[98]] ?wa = (Inr 0, ref_set 1 [107] 1, ?wa)"
    by blast
  from SAdd_SMove_swallow_store_error
    [OF p2, of ?wb ref_env "ref_set 1 [107] 1" "[[98]]" "[97]" "[100]"]
    h2 h3 h4
  have c2: "fst (SMove ref_env (ref_set 1 [107] 1) [100] [97] ?wb) = Inr 0"
    by blast
  from p1 p2 h1 h2 h3 h4 c1 c2 show ?thesis
    by blast
qed

section \<open>GetSet\<close>

text \<open>
  C2. \<open>GetSet\<close> tests the expiration of the fresh handle it has just made, whose
  expiration time is 0, not of the decoded record. A stored set record that is expired when
  \<open>GetSet\<close> reads the clock is therefore returned with \<open>exists = true\<close> and the decoded,
  stale metadata.
\<close>

theorem GetSet_expired_returns_stale_meta:
  assumes "get_err w (MetaKey env k) = None"
    and "map_of (kv w) (MetaKey env k) = Some mbytes"
    and "DecodeSetMeta env (Some mbytes) = Inr smeta"
    and "Type (Object smeta) = ObjectSet env"
    and "IsExpired (Object smeta) (clock w (Suc (ticks w)))"
  shows "\<exists>st w'. GetSet env k w = (Inr st, w') \<and> exists st \<and> meta st = smeta"
  using assms(1-4)
  by (simp add: GetSet_def newSet_def Now_def UUID_def txn_Get_def IsExpired_def)

theorem GetSet_expired_returns_stale_meta_witness:
  "get_err (ref_world (ref_store 1 [107] 1 1 [[97]])) (MetaKey ref_env [107]) = None \<and>
   map_of (kv (ref_world (ref_store 1 [107] 1 1 [[97]]))) (MetaKey ref_env [107])
     = Some (encodeSetMeta ref_env \<lparr>Object = ref_object 1 1, Len = 1\<rparr>) \<and>
   DecodeSetMeta ref_env (Some (encodeSetMeta ref_env \<lparr>Object = ref_object 1 1, Len = 1\<rparr>))
     = Inr \<lparr>Object = ref_object 1 1, Len = 1\<rparr> \<and>
   Type (Object \<lparr>Object = ref_object 1 1, Len = 1\<rparr>) = ObjectSet ref_env \<and>
   IsExpired (Object \<lparr>Object = ref_object 1 1, Len = 1\<rparr>)
     (clock (ref_world (ref_store 1 [107] 1 1 [[97]]))
        (Suc (ticks (ref_world (ref_store 1 [107] 1 1 [[97]]))))) \<and>
   (\<exists>st w'. GetSet ref_env [107] (ref_world (ref_store 1 [107] 1 1 [[97]])) = (Inr st, w') \<and>
      exists st \<and> meta st = \<lparr>Object = ref_object 1 1, Len = 1\<rparr>)"
proof -
  let ?w = "ref_world (ref_store 1 [107] 1 1 [[97]])"
  let ?m = "\<lparr>Object = ref_object 1 1, Len = 1\<rparr>"
  have h1: "get_err ?w (MetaKey ref_env [107]) = None"
    by (simp add: ref_world_def)
  have h2: "map_of (kv ?w) (MetaKey ref_env [107]) = Some (encodeSetMeta ref_env ?m)"
    by (simp add: ref_world_def ref_store_def)
  have h3: "DecodeSetMeta ref_env (Some (encodeSetMeta ref_env ?m)) = Inr ?m"
    by code_simp
  have h4: "Type (Object ?m) = ObjectSet ref_env"
    by (simp add: ref_object_def ref_env_def)
  have h5: "IsExpired (Object ?m) (clock ?w (Suc (ticks ?w)))"
    by code_simp
  from GetSet_expired_returns_stale_meta [OF h1 h2 h3 h4 h5] h1 h2 h3 h4 h5 show ?thesis
    by blast
qed

section \<open>SRem\<close>

lemma SRem_loop_ok:
  "no_faults w \<Longrightarrow>
   \<exists>n w'. SRem_loop dkey ms num w = (Inr n, w') \<and> no_faults w' \<and>
     (\<forall>k v. map_of (kv w) k = Some v \<and> v \<noteq> SetNilValue \<longrightarrow> map_of (kv w') k = Some v)"
proof (induction ms arbitrary: num w)
  case Nil
  then show ?case by simp
next
  case (Cons m ms)
  let ?ikey = "setItemKey dkey m"
  have g: "get_err w ?ikey = None" and d: "del_err w ?ikey = None"
    using Cons.prems by (simp_all add: no_faults_def)
  show ?case
  proof (cases "map_of (kv w) ?ikey = Some SetNilValue")
    case True
    let ?w1 = "w\<lparr>kv := filter (\<lambda>p. fst p \<noteq> ?ikey) (kv w)\<rparr>"
    have nf1: "no_faults ?w1" using Cons.prems by simp
    from Cons.IH [OF nf1, of "num + 1"]
    obtain n w' where r: "SRem_loop dkey ms (num + 1) ?w1 = (Inr n, w')" "no_faults w'"
        "\<forall>k v. map_of (kv ?w1) k = Some v \<and> v \<noteq> SetNilValue \<longrightarrow> map_of (kv w') k = Some v"
      by blast
    have "SRem_loop dkey (m # ms) num w = (Inr n, w')"
      using True g d r(1) by (simp add: txn_Get_def txn_Delete_def)
    moreover have "\<forall>k v. map_of (kv w) k = Some v \<and> v \<noteq> SetNilValue \<longrightarrow> map_of (kv w') k = Some v"
    proof (intro allI impI)
      fix k v assume kv: "map_of (kv w) k = Some v \<and> v \<noteq> SetNilValue"
      with True have "k \<noteq> ?ikey" by auto
      with kv have "map_of (kv ?w1) k = Some v \<and> v \<noteq> SetNilValue"
        by (simp add: map_of_filter_fst_neq)
      with r(3) show "map_of (kv w') k = Some v" by blast
    qed
    ultimately show ?thesis using r(2) by blast
  next
    case False
    from Cons.IH [OF Cons.prems, of num]
    obtain n w' where r: "SRem_loop dkey ms num w = (Inr n, w')" "no_faults w'"
        "\<forall>k v. map_of (kv w) k = Some v \<and> v \<noteq> SetNilValue \<longrightarrow> map_of (kv w') k = Some v"
      by blast
    have "SRem_loop dkey (m # ms) num w = (Inr n, w')"
      using False g r(1)
      by (cases "map_of (kv w) ?ikey") (simp_all add: txn_Get_def IsErrNotFound_def)
    then show ?thesis using r(2,3) by blast
  qed
qed

text \<open>
  C3. \<open>SRem\<close> does not fail on a member key that holds a value other than
  \<open>SetNilValue\<close>: the member is skipped, the call returns a count and no error, and the
  key keeps its value. (\<open>SIsmember\<close> fails with \<open>ErrSetNilValue\<close> on the same key.)
\<close>

theorem SRem_skips_corrupt_member:
  assumes "no_faults w" and "exists st"
    and "m \<in> set members"
    and "map_of (kv w) (setItemKey (DataKey env (ID (Object (meta st)))) m) = Some v"
    and "v \<noteq> SetNilValue"
    and "MetaKey env (key st) \<noteq> setItemKey (DataKey env (ID (Object (meta st)))) m"
  shows "\<exists>n st' w'. SRem env st members w = (Inr n, st', w') \<and>
      map_of (kv w') (setItemKey (DataKey env (ID (Object (meta st)))) m) = Some v \<and>
      SIsmember env st m w = Inl ErrSetNilValue"
proof -
  let ?dkey = "DataKey env (ID (Object (meta st)))"
  from SRem_loop_ok [OF assms(1), of ?dkey "RemoveRepByMap members" 0]
  obtain n w1 where r: "SRem_loop ?dkey (RemoveRepByMap members) 0 w = (Inr n, w1)" "no_faults w1"
      "\<forall>k v. map_of (kv w) k = Some v \<and> v \<noteq> SetNilValue \<longrightarrow> map_of (kv w1) k = Some v"
    by blast
  let ?st1 = "st\<lparr>meta := (meta st)\<lparr>Len := Len (meta st) - n\<rparr>\<rparr>"
  have um: "updateMeta env ?st1 w1 =
     (None,
      ?st1\<lparr>meta := (meta ?st1)\<lparr>Object := (Object (meta ?st1))\<lparr>UpdatedAt := clock w1 (ticks w1)\<rparr>\<rparr>,
          exists := True\<rparr>,
      w1\<lparr>kv := (MetaKey env (key ?st1), encodeSetMeta env (meta ?st1)) #
               filter (\<lambda>p. fst p \<noteq> MetaKey env (key ?st1)) (kv w1),
         ticks := Suc (ticks w1)\<rparr>)"
    by (rule updateMeta_ok) (use r(2) in \<open>simp add: no_faults_def\<close>)
  have "SRem env st members w =
      (Inr n, fst (snd (updateMeta env ?st1 w1)), snd (snd (updateMeta env ?st1 w1)))"
    unfolding SRem_def Let_def using assms(2) r(1) um by simp
  moreover have "map_of (kv (snd (snd (updateMeta env ?st1 w1)))) (setItemKey ?dkey m) = Some v"
    unfolding um using r(3) assms(4,5,6) by (simp add: map_of_filter_fst_neq)
  moreover have "SIsmember env st m w = Inl ErrSetNilValue"
    using assms(1,2,4,5) by (simp add: SIsmember_def txn_Get_def no_faults_def)
  ultimately show ?thesis by blast
qed

theorem SRem_skips_corrupt_member_witness:
  "no_faults (ref_world ((setItemKey (DataKey ref_env (replicate 16 1)) [98], [1]) #
       ref_store 1 [107] 0 1 [[97]])) \<and>
   exists (ref_set 1 [107] 1) \<and>
   [98] \<in> set [[98 :: byte]] \<and>
   map_of (kv (ref_world ((setItemKey (DataKey ref_env (replicate 16 1)) [98], [1]) #
       ref_store 1 [107] 0 1 [[97]])))
     (setItemKey (DataKey ref_env (ID (Object (meta (ref_set 1 [107] 1))))) [98]) = Some [1] \<and>
   [1] \<noteq> SetNilValue \<and>
   MetaKey ref_env (key (ref_set 1 [107] 1))
     \<noteq> setItemKey (DataKey ref_env (ID (Object (meta (ref_set 1 [107] 1))))) [98] \<and>
   (\<exists>n st' w'.
      SRem ref_env (ref_set 1 [107] 1) [[98]]
        (ref_world ((setItemKey (DataKey ref_env (replicate 16 1)) [98], [1]) #
           ref_store 1 [107] 0 1 [[97]])) = (Inr n, st', w') \<and>
      map_of (kv w') (setItemKey (DataKey ref_env (ID (Object (meta (ref_set 1 [107] 1))))) [98])
        = Some [1] \<and>
      SIsmember ref_env (ref_set 1 [107] 1) [98]
        (ref_world ((setItemKey (DataKey ref_env (replicate 16 1)) [98], [1]) #
           ref_store 1 [107] 0 1 [[97]])) = Inl ErrSetNilValue) \<and>
   fst (SRem ref_env (ref_set 1 [107] 1) [[98]]
        (ref_world ((setItemKey (DataKey ref_env (replicate 16 1)) [98], [1]) #
           ref_store 1 [107] 0 1 [[97]]))) = Inr 0"
proof -
  let ?w = "ref_world ((setItemKey (DataKey ref_env (replicate 16 1)) [98], [1]) #
       ref_store 1 [107] 0 1 [[97]])"
  let ?st = "ref_set 1 [107] 1"
  have h1: "no_faults ?w" by simp
  have h2: "exists ?st" by (simp add: ref_set_def)
  have h3: "[98] \<in> set [[98 :: byte]]" by simp
  have h4: "map_of (kv ?w) (setItemKey (DataKey ref_env (ID (Object (meta ?st)))) [98]) = Some [1]"
    by code_simp
  have h5: "[1] \<noteq> SetNilValue" by (simp add: SetNilValue_def)
  have h6: "MetaKey ref_env (key ?st) \<noteq> setItemKey (DataKey ref_env (ID (Object (meta ?st)))) [98]"
    by code_simp
  have e: "fst (SRem ref_env ?st [[98]] ?w) = Inr 0"
    by code_simp
  from SRem_skips_corrupt_member [OF h1 h2 h3 h4 h5 h6] h1 h2 h3 h4 h5 h6 e show ?thesis
    by blast
qed

section \<open>The key range of a set\<close>

lemma inc_be_snoc: "c + 1 \<noteq> 0 \<Longrightarrow> inc_be (p @ [c]) = (p @ [c + 1], False)"
  by (induction p) simp_all

lemma PrefixNext_colon: "PrefixNext (p @ [58]) = p @ [59]"
  using inc_be_snoc [of 58 p] by (simp add: PrefixNext_def)

lemma byte_between_58_59: "(58 \<le> a \<and> a < 59) \<longleftrightarrow> a = (58 :: byte)"
  by (auto simp add: word_le_nat_alt word_less_nat_alt word_unat_eq_iff)

lemma range_is_prefix:
  "(p @ [58] \<le> k \<and> k < p @ [59]) \<longleftrightarrow> HasPrefix k (p @ [58 :: byte])"
proof (induction p arbitrary: k)
  case Nil
  show ?case
  proof (cases k)
    case Nil
    then show ?thesis by (simp add: HasPrefix_def)
  next
    case (Cons a r)
    have "([58] \<le> a # r \<and> a # r < [59]) \<longleftrightarrow> (58 \<le> a \<and> a < 59)"
      by auto
    then show ?thesis
      using Cons byte_between_58_59 [of a] by (auto simp add: HasPrefix_def)
  qed
next
  case (Cons b p)
  show ?case
  proof (cases k)
    case Nil
    then show ?thesis by (simp add: HasPrefix_def)
  next
    case (Cons a r)
    have "(b # p @ [58] \<le> a # r \<and> a # r < b # p @ [59]) \<longleftrightarrow> (a = b \<and> p @ [58] \<le> r \<and> r < p @ [59])"
      by auto
    also have "\<dots> \<longleftrightarrow> (a = b \<and> HasPrefix r (p @ [58]))"
      using Cons.IH [of r] by simp
    also have "\<dots> \<longleftrightarrow> HasPrefix (a # r) (b # p @ [58])"
      by (auto simp add: HasPrefix_def)
    finally show ?thesis using Cons by simp
  qed
qed

lemma append_le_append: "p @ a \<le> p @ b \<longleftrightarrow> a \<le> (b :: bytes)"
  by (induction p) auto

lemma sorted_strip_prefix:
  "sorted it \<Longrightarrow> \<forall>k\<in>set it. HasPrefix k p \<Longrightarrow> sorted (map (drop (length p)) it)"
proof (induction it)
  case Nil
  then show ?case by simp
next
  case (Cons k it)
  then obtain m where m: "k = p @ m" by (auto simp add: HasPrefix_iff)
  have "\<forall>y\<in>set it. drop (length p) k \<le> drop (length p) y"
  proof
    fix y assume y: "y \<in> set it"
    with Cons.prems obtain r where r: "y = p @ r" by (auto simp add: HasPrefix_iff)
    from Cons.prems(1) y have "k \<le> y" by simp
    with m r show "drop (length p) k \<le> drop (length p) y"
      by (simp add: append_le_append)
  qed
  with Cons show ?case by simp
qed

section \<open>SPop\<close>

lemma unat_pred: "count \<noteq> 0 \<Longrightarrow> unat (count :: int64) = Suc (unat (count - 1))"
  by (simp add: unat_minus_one unat_gt_0)

lemma SPop_loop_ok:
  "no_faults w \<Longrightarrow> \<forall>k\<in>set it. HasPrefix k prefix \<Longrightarrow>
   SPop_loop prefix it count deleted members w =
     (Inr (deleted + of_nat (min (length it) (unat count)),
           members @ map (drop (length prefix)) (take (unat count) it)),
      w\<lparr>kv := filter (\<lambda>p. fst p \<notin> set (take (unat count) it)) (kv w)\<rparr>)"
proof (induction it arbitrary: count deleted members w)
  case Nil
  then show ?case by simp
next
  case (Cons k it)
  show ?case
  proof (cases "count = 0")
    case True
    then show ?thesis by simp
  next
    case False
    let ?w1 = "w\<lparr>kv := filter (\<lambda>p. fst p \<noteq> k) (kv w)\<rparr>"
    have nf1: "no_faults ?w1" using Cons.prems(1) by simp
    have pre: "\<forall>k\<in>set it. HasPrefix k prefix" using Cons.prems(2) by simp
    have d: "txn_Delete w k = Inr ?w1" and nx: "next_err ?w1 k = None"
      using Cons.prems(1) by (simp_all add: txn_Delete_def no_faults_def)
    have hk: "HasPrefix k prefix" using Cons.prems(2) by simp
    have u: "unat count = Suc (unat (count - 1))" using False by (rule unat_pred)
    have "SPop_loop prefix (k # it) count deleted members w =
        SPop_loop prefix it (count - 1) (deleted + 1) (members @ [drop (length prefix) k]) ?w1"
      using False hk d nx by simp
    also have "\<dots> =
      (Inr (deleted + 1 + of_nat (min (length it) (unat (count - 1))),
           (members @ [drop (length prefix) k]) @ map (drop (length prefix)) (take (unat (count - 1)) it)),
       ?w1\<lparr>kv := filter (\<lambda>p. fst p \<notin> set (take (unat (count - 1)) it)) (kv ?w1)\<rparr>)"
      by (rule Cons.IH [OF nf1 pre])
    also have "\<dots> =
      (Inr (deleted + of_nat (min (length (k # it)) (unat count)),
           members @ map (drop (length prefix)) (take (unat count) (k # it))),
       w\<lparr>kv := filter (\<lambda>p. fst p \<notin> set (take (unat count) (k # it))) (kv w)\<rparr>)"
      unfolding u by (simp add: conj_commute)
    finally show ?thesis .
  qed
qed

lemma sint_bound_nat: "sint (x :: int64) = int k \<Longrightarrow> k < 2 ^ 63"
proof -
  assume a: "sint x = int k"
  have "sint x < 2 ^ 63" using sint_lt [of x] by simp
  with a have "int k < 2 ^ 63" by simp
  then show ?thesis by (simp add: of_nat_less_numeral_power_cancel_iff)
qed

lemma unat_nonneg: "0 \<le> sint (n :: int64) \<Longrightarrow> unat n = nat (sint n)"
proof -
  assume a: "0 \<le> sint n"
  have "sint n < 2 ^ 63" using sint_lt [of n] by simp
  then have "sint n < 2 ^ 64" by simp
  with a have "take_bit 64 (sint n) = sint n" by (simp add: take_bit_int_eq_self)
  then have "uint n = sint n" using uint_sint [of n] by simp
  then show ?thesis by (metis nat_uint_eq)
qed

lemma unat_negative: "sint (n :: int64) < 0 \<Longrightarrow> 2 ^ 63 \<le> unat n"
proof -
  assume a: "sint n < 0"
  have b: "- (2 ^ 63) \<le> sint n" using sint_ge [of n] by simp
  have "uint n = sint n mod 2 ^ 64" using uint_sint [of n] by (simp add: take_bit_eq_mod)
  also have "\<dots> = (sint n + 2 ^ 64) mod 2 ^ 64" by simp
  also have "\<dots> = sint n + 2 ^ 64" using a b by (intro mod_pos_pos_trivial) simp_all
  finally have "2 ^ 63 \<le> uint n" using b by simp
  then have "int (2 ^ 63) \<le> int (unat n)" by simp
  then show ?thesis by (simp only: of_nat_le_iff)
qed

lemma sint_sub_of_nat:
  assumes "j \<le> k" and "sint (x :: int64) = int k"
  shows "sint (x - of_nat j) = int k - int j"
proof -
  have "x = of_nat k" using assms(2) by (rule sint_eq_int_imp)
  then have "x - of_nat j = of_nat (k - j)" using assms(1) by simp
  moreover have "k - j < 2 ^ 63" using sint_bound_nat [OF assms(2)] by simp
  ultimately have "sint (x - of_nat j) = int (k - j)" by (simp add: sint_of_nat_small)
  then show ?thesis using assms(1) by simp
qed

lemma sort_remdups_eqI: "sorted l \<Longrightarrow> distinct l \<Longrightarrow> set xs = set l \<Longrightarrow> sort (remdups xs) = l"
  by (metis sorted_list_of_set.idem_if_sorted_distinct sorted_list_of_set_sort_remdups)

lemma popped_less_rest:
  assumes "sorted (l :: bytes list)" and "distinct l"
    and "a \<in> set (take j l)" and "b \<in> set (drop j l)"
  shows "a < b"
proof -
  have "sorted (take j l @ drop j l)" and "distinct (take j l @ drop j l)"
    using assms(1,2) by simp_all
  then have "a \<le> b" and "a \<noteq> b"
    using assms(3,4) by (auto simp add: sorted_append simp del: append_take_drop_id)
  then show ?thesis by simp
qed

lemma txn_Iter_prefix:
  "no_faults w \<Longrightarrow>
   txn_Iter w (d @ [58]) (PrefixNext (d @ [58])) =
     Inr (sort (remdups (filter (\<lambda>k. HasPrefix k (d @ [58])) (map fst (kv w)))))"
  by (simp add: txn_Iter_def no_faults_def PrefixNext_colon range_is_prefix)

lemma sorted_member_list: "sorted (member_list env st w)"
  unfolding member_list_def by (rule sorted_strip_prefix) auto

lemma SPop_ok:
  assumes nf: "no_faults w" and ex: "exists st" and nz: "Len (meta st) \<noteq> 0"
    and sep: "\<not> HasPrefix (MetaKey env (key st)) (data_prefix env st)"
  shows "\<exists>st' w'.
      SPop env st count w = (Inr (take (unat count) (member_list env st w)), st', w') \<and>
      exists st' \<and>
      Len (meta st') = Len (meta st) - of_nat (min (length (member_list env st w)) (unat count)) \<and>
      member_list env st' w' = drop (unat count) (member_list env st w) \<and>
      map_of (kv w') (MetaKey env (key st)) =
        Some (encodeSetMeta env ((meta st)\<lparr>Len := Len (meta st) -
           of_nat (min (length (member_list env st w)) (unat count))\<rparr>))"
proof -
  let ?p = "data_prefix env st"
  let ?mk = "MetaKey env (key st)"
  define it where "it = sort (remdups (filter (\<lambda>k. HasPrefix k ?p) (map fst (kv w))))"
  define j where "j = unat count"
  define deleted :: int64 where "deleted = of_nat (min (length it) j)"
  have ml: "member_list env st w = map (drop (length ?p)) it"
    by (simp add: member_list_def it_def)
  have it_sorted: "sorted it" and it_distinct: "distinct it"
    by (simp_all add: it_def)
  have it_set: "set it = {k \<in> fst ` set (kv w). HasPrefix k ?p}"
    by (auto simp add: it_def)
  have pre: "\<forall>k\<in>set it. HasPrefix k ?p"
    using it_set by simp
  have iter: "txn_Iter w ?p (PrefixNext ?p) = Inr it"
    unfolding data_prefix_def it_def by (rule txn_Iter_prefix [OF nf])
  let ?w1 = "w\<lparr>kv := filter (\<lambda>q. fst q \<notin> set (take j it)) (kv w)\<rparr>"
  have loop: "SPop_loop ?p it count 0 [] w =
      (Inr (deleted, take j (member_list env st w)), ?w1)"
    using SPop_loop_ok [OF nf pre, of count 0 "[]"]
    by (simp add: deleted_def j_def ml take_map)
  have nf1: "no_faults ?w1" using nf by simp
  let ?st1 = "st\<lparr>meta := (meta st)\<lparr>Len := Len (meta st) - deleted\<rparr>\<rparr>"
  let ?st2 = "?st1\<lparr>meta := (meta ?st1)\<lparr>Object := (Object (meta ?st1))\<lparr>UpdatedAt := clock ?w1 (ticks ?w1)\<rparr>\<rparr>,
          exists := True\<rparr>"
  let ?w2 = "?w1\<lparr>kv := (MetaKey env (key ?st1), encodeSetMeta env (meta ?st1)) #
               filter (\<lambda>q. fst q \<noteq> MetaKey env (key ?st1)) (kv ?w1),
         ticks := Suc (ticks ?w1)\<rparr>"
  have um: "updateMeta env ?st1 ?w1 = (None, ?st2, ?w2)"
    by (rule updateMeta_ok) (use nf1 in \<open>simp add: no_faults_def\<close>)
  have res: "SPop env st count w = (Inr (take j (member_list env st w)), ?st2, ?w2)"
    using ex nz iter loop um
    by (simp add: SPop_def Let_def data_prefix_def del: SPop_loop.simps)
  have p2: "data_prefix env ?st2 = ?p"
    by (simp add: data_prefix_def)
  have keys2: "set (filter (\<lambda>k. HasPrefix k ?p) (map fst (kv ?w2))) = set (drop j it)"
  proof -
    have "set (filter (\<lambda>k. HasPrefix k ?p) (map fst (kv ?w2)))
        = {k \<in> fst ` set (kv w). HasPrefix k ?p} - set (take j it)"
      using sep by (auto simp add: image_iff) force
    also have "\<dots> = set it - set (take j it)"
      by (simp add: it_set)
    also have "\<dots> = set (drop j it)"
    proof -
      have "distinct (take j it @ drop j it)" using it_distinct by simp
      then have "set (take j it) \<inter> set (drop j it) = {}"
        by (simp only: distinct_append)
      moreover have "set it = set (take j it) \<union> set (drop j it)"
        by (metis append_take_drop_id set_append)
      ultimately show ?thesis by blast
    qed
    finally show ?thesis .
  qed
  have "sort (remdups (filter (\<lambda>k. HasPrefix k ?p) (map fst (kv ?w2)))) = drop j it"
    by (rule sort_remdups_eqI [OF _ _ keys2])
      (use it_sorted it_distinct in \<open>simp_all add: sorted_wrt_drop\<close>)
  then have ml2: "member_list env ?st2 ?w2 = drop j (member_list env st w)"
    unfolding member_list_def p2 by (simp add: it_def [symmetric] drop_map)
  have len: "length (member_list env st w) = length it"
    by (simp add: ml)
  have pers: "map_of (kv ?w2) ?mk = Some (encodeSetMeta env ((meta st)\<lparr>Len := Len (meta st) - deleted\<rparr>))"
    by simp
  show ?thesis
    unfolding j_def [symmetric] len deleted_def [symmetric]
    using res ml2 pers by (intro exI [of _ ?st2] exI [of _ ?w2]) simp
qed

text \<open>
  C4. For a count \<open>n \<ge> 0\<close>, on an existing set whose \<open>Len\<close> counts its \<open>k\<close> member keys
  and a store that does not fail, \<open>SPop\<close> returns the first \<open>min n k\<close> members in bytewise
  order: every returned member is smaller than every member that stays. The keys of the
  returned members are gone from the store, the other members stay, and \<open>SCard\<close> goes
  down by \<open>min n k\<close>, on the handle and in the store: when the set is not empty the
  metadata record in the store is the handle's record with the new \<open>Len\<close>; when it is
  empty the call returns at once and handle and store stay as they are. The metadata key
  is assumed to lie outside the data prefix of the set.
\<close>

theorem SPop_returns_smallest_members:
  assumes "no_faults w" and "exists st" and "0 \<le> sint n"
    and "sint (Len (meta st)) = int (length (member_list env st w))"
    and "\<not> HasPrefix (MetaKey env (key st)) (data_prefix env st)"
  shows "\<exists>members st' w' c c'.
      SPop env st n w = (Inr members, st', w') \<and>
      length members = min (nat (sint n)) (length (member_list env st w)) \<and>
      members = take (nat (sint n)) (member_list env st w) \<and>
      member_list env st' w' = drop (nat (sint n)) (member_list env st w) \<and>
      (\<forall>a\<in>set members. \<forall>b\<in>set (member_list env st' w'). a < b) \<and>
      SCard st = Inr c \<and> SCard st' = Inr c' \<and>
      sint c' = sint c - int (min (nat (sint n)) (length (member_list env st w))) \<and>
      (Len (meta st) = 0 \<longrightarrow> st' = st \<and> w' = w) \<and>
      (Len (meta st) \<noteq> 0 \<longrightarrow>
         map_of (kv w') (MetaKey env (key st)) =
           Some (encodeSetMeta env ((meta st)\<lparr>Len := c'\<rparr>)))"
proof -
  let ?ml = "member_list env st w"
  let ?j = "nat (sint n)"
  have u: "unat n = ?j" using assms(3) by (rule unat_nonneg)
  have less: "\<forall>a\<in>set (take ?j ?ml). \<forall>b\<in>set (drop ?j ?ml). a < b"
    using popped_less_rest [OF sorted_member_list distinct_member_list] by blast
  have c: "SCard st = Inr (Len (meta st))" using assms(2) by (simp add: SCard_def)
  show ?thesis
  proof (cases "Len (meta st) = 0")
    case True
    with assms(4) have "?ml = []" by simp
    moreover have "SPop env st n w = (Inr [], st, w)" using True by (simp add: SPop_def)
    ultimately show ?thesis using c True by simp
  next
    case False
    from SPop_ok [OF assms(1,2) False assms(5), of n]
    obtain st' w' where r: "SPop env st n w = (Inr (take ?j ?ml), st', w')" "exists st'"
        "Len (meta st') = Len (meta st) - of_nat (min (length ?ml) ?j)"
        "member_list env st' w' = drop ?j ?ml"
        "map_of (kv w') (MetaKey env (key st)) =
           Some (encodeSetMeta env ((meta st)\<lparr>Len := Len (meta st) -
             of_nat (min (length ?ml) ?j)\<rparr>))"
      unfolding u by blast
    have p: "map_of (kv w') (MetaKey env (key st)) =
        Some (encodeSetMeta env ((meta st)\<lparr>Len := Len (meta st')\<rparr>))"
      using r(3,5) by simp
    have c': "SCard st' = Inr (Len (meta st'))" using r(2) by (simp add: SCard_def)
    have "sint (Len (meta st) - of_nat (min (length ?ml) ?j))
        = int (length ?ml) - int (min (length ?ml) ?j)"
      by (rule sint_sub_of_nat [OF _ assms(4)]) simp
    then have s: "sint (Len (meta st')) = sint (Len (meta st)) - int (min ?j (length ?ml))"
      using r(3) assms(4) by (simp add: min.commute)
    have l: "length (take ?j ?ml) = min ?j (length ?ml)" by (simp add: min.commute)
    have less': "\<forall>a\<in>set (take ?j ?ml). \<forall>b\<in>set (member_list env st' w'). a < b"
      using less r(4) by simp
    show ?thesis
      by (intro exI [of _ "take ?j ?ml"] exI [of _ st'] exI [of _ w']
            exI [of _ "Len (meta st)"] exI [of _ "Len (meta st')"])
        (use r(1,4) l less' c c' s p False in simp)
  qed
qed

theorem SPop_returns_smallest_members_witness:
  "no_faults (ref_world (ref_store 1 [107] 0 3 [[99], [97], [98]])) \<and>
   exists (ref_set 1 [107] 3) \<and>
   0 \<le> sint (2 :: int64) \<and>
   sint (Len (meta (ref_set 1 [107] 3))) =
     int (length (member_list ref_env (ref_set 1 [107] 3)
        (ref_world (ref_store 1 [107] 0 3 [[99], [97], [98]])))) \<and>
   \<not> HasPrefix (MetaKey ref_env (key (ref_set 1 [107] 3))) (data_prefix ref_env (ref_set 1 [107] 3)) \<and>
   (\<exists>members st' w' c c'.
      SPop ref_env (ref_set 1 [107] 3) 2 (ref_world (ref_store 1 [107] 0 3 [[99], [97], [98]]))
        = (Inr members, st', w') \<and>
      length members = min (nat (sint (2 :: int64)))
        (length (member_list ref_env (ref_set 1 [107] 3)
           (ref_world (ref_store 1 [107] 0 3 [[99], [97], [98]])))) \<and>
      members = take (nat (sint (2 :: int64)))
        (member_list ref_env (ref_set 1 [107] 3)
           (ref_world (ref_store 1 [107] 0 3 [[99], [97], [98]]))) \<and>
      member_list ref_env st' w' = drop (nat (sint (2 :: int64)))
        (member_list ref_env (ref_set 1 [107] 3)
           (ref_world (ref_store 1 [107] 0 3 [[99], [97], [98]]))) \<and>
      (\<forall>a\<in>set members. \<forall>b\<in>set (member_list ref_env st' w'). a < b) \<and>
      SCard (ref_set 1 [107] 3) = Inr c \<and> SCard st' = Inr c' \<and>
      sint c' = sint c - int (min (nat (sint (2 :: int64)))
        (length (member_list ref_env (ref_set 1 [107] 3)
           (ref_world (ref_store 1 [107] 0 3 [[99], [97], [98]]))))) \<and>
      (Len (meta (ref_set 1 [107] 3)) = 0 \<longrightarrow>
         st' = ref_set 1 [107] 3 \<and> w' = ref_world (ref_store 1 [107] 0 3 [[99], [97], [98]])) \<and>
      (Len (meta (ref_set 1 [107] 3)) \<noteq> 0 \<longrightarrow>
         map_of (kv w') (MetaKey ref_env (key (ref_set 1 [107] 3))) =
           Some (encodeSetMeta ref_env ((meta (ref_set 1 [107] 3))\<lparr>Len := c'\<rparr>)))) \<and>
   member_list ref_env (ref_set 1 [107] 3) (ref_world (ref_store 1 [107] 0 3 [[99], [97], [98]]))
     = [[97], [98], [99]] \<and>
   fst (SPop ref_env (ref_set 1 [107] 3) 2 (ref_world (ref_store 1 [107] 0 3 [[99], [97], [98]])))
     = Inr [[97], [98]] \<and>
   SCard (fst (snd (SPop ref_env (ref_set 1 [107] 3) 2
      (ref_world (ref_store 1 [107] 0 3 [[99], [97], [98]]))))) = Inr 1 \<and>
   Len (meta (ref_set 1 [107] 3)) \<noteq> 0 \<and>
   map_of (kv (snd (snd (SPop ref_env (ref_set 1 [107] 3) 2
      (ref_world (ref_store 1 [107] 0 3 [[99], [97], [98]])))))) (MetaKey ref_env [107])
     = Some (encodeSetMeta ref_env \<lparr>Object = ref_object 1 0, Len = 1\<rparr>) \<and>
   no_faults (ref_world (ref_store 1 [107] 0 0 [])) \<and>
   exists (ref_set 1 [107] 0) \<and>
   sint (Len (meta (ref_set 1 [107] 0))) =
     int (length (member_list ref_env (ref_set 1 [107] 0) (ref_world (ref_store 1 [107] 0 0 [])))) \<and>
   \<not> HasPrefix (MetaKey ref_env (key (ref_set 1 [107] 0))) (data_prefix ref_env (ref_set 1 [107] 0)) \<and>
   Len (meta (ref_set 1 [107] 0)) = 0 \<and>
   SPop ref_env (ref_set 1 [107] 0) 2 (ref_world (ref_store 1 [107] 0 0 []))
     = (Inr [], ref_set 1 [107] 0, ref_world (ref_store 1 [107] 0 0 []))"
proof -
  let ?w = "ref_world (ref_store 1 [107] 0 3 [[99], [97], [98]])"
  let ?st = "ref_set 1 [107] 3"
  let ?empty_w = "ref_world (ref_store 1 [107] 0 0 [])"
  let ?empty_st = "ref_set 1 [107] 0"
  have h1: "no_faults ?w" by simp
  have h2: "exists ?st" by (simp add: ref_set_def)
  have h3: "0 \<le> sint (2 :: int64)" by simp
  have h4: "sint (Len (meta ?st)) = int (length (member_list ref_env ?st ?w))"
    by code_simp
  have h5: "\<not> HasPrefix (MetaKey ref_env (key ?st)) (data_prefix ref_env ?st)"
    by code_simp
  have e1: "member_list ref_env ?st ?w = [[97], [98], [99]]"
    by code_simp
  have e2: "fst (SPop ref_env ?st 2 ?w) = Inr [[97], [98]]"
    by code_simp
  have e3: "SCard (fst (snd (SPop ref_env ?st 2 ?w))) = Inr 1"
    by code_simp
  have e4: "Len (meta ?st) \<noteq> 0"
    by (simp add: ref_set_def)
  have e5: "map_of (kv (snd (snd (SPop ref_env ?st 2 ?w)))) (MetaKey ref_env [107])
      = Some (encodeSetMeta ref_env \<lparr>Object = ref_object 1 0, Len = 1\<rparr>)"
    by code_simp
  have g1: "no_faults ?empty_w" by simp
  have g2: "exists ?empty_st" by (simp add: ref_set_def)
  have g4: "sint (Len (meta ?empty_st)) = int (length (member_list ref_env ?empty_st ?empty_w))"
    by code_simp
  have g5: "\<not> HasPrefix (MetaKey ref_env (key ?empty_st)) (data_prefix ref_env ?empty_st)"
    by code_simp
  have g6: "Len (meta ?empty_st) = 0"
    by (simp add: ref_set_def)
  have g7: "member_list ref_env ?empty_st ?empty_w = []"
    by code_simp
  from SPop_returns_smallest_members [OF g1 g2 h3 g4 g5]
  obtain members st' w' where r: "SPop ref_env ?empty_st 2 ?empty_w = (Inr members, st', w')"
      "members = take (nat (sint (2 :: int64))) (member_list ref_env ?empty_st ?empty_w)"
      "Len (meta ?empty_st) = 0 \<longrightarrow> st' = ?empty_st \<and> w' = ?empty_w"
    by blast
  have e6: "SPop ref_env ?empty_st 2 ?empty_w = (Inr [], ?empty_st, ?empty_w)"
    using r g6 g7 by simp
  from SPop_returns_smallest_members [OF h1 h2 h3 h4 h5] h1 h2 h3 h4 h5 e1 e2 e3 e4 e5
    g1 g2 g4 g5 g6 e6
  show ?thesis
    by blast
qed

text \<open>
  C10. For a negative count, on an existing set that is not empty and whose \<open>Len\<close> counts
  its member keys, \<open>SPop\<close> returns every member and deletes every member key: the budget
  goes further below zero at each step and cannot come round to 0 within fewer than
  \<open>2^63\<close> steps. The persisted \<open>Len\<close> is 0.
\<close>

theorem SPop_negative_count_pops_all:
  assumes "no_faults w" and "exists st" and "sint n < 0"
    and "sint (Len (meta st)) = int (length (member_list env st w))"
    and "member_list env st w \<noteq> []"
    and "\<not> HasPrefix (MetaKey env (key st)) (data_prefix env st)"
  shows "\<exists>st' w'.
      SPop env st n w = (Inr (member_list env st w), st', w') \<and>
      member_list env st' w' = [] \<and>
      Len (meta st') = 0 \<and>
      map_of (kv w') (MetaKey env (key st)) = Some (encodeSetMeta env ((meta st)\<lparr>Len := 0\<rparr>))"
proof -
  let ?ml = "member_list env st w"
  have "length ?ml < 2 ^ 63" using assms(4) by (rule sint_bound_nat)
  moreover have "2 ^ 63 \<le> unat n" using assms(3) by (rule unat_negative)
  ultimately have big: "length ?ml \<le> unat n" by simp
  have nz: "Len (meta st) \<noteq> 0" using assms(4,5) by auto
  have len: "Len (meta st) = of_nat (length ?ml)" using assms(4) by (rule sint_eq_int_imp)
  from SPop_ok [OF assms(1,2) nz assms(6), of n]
  obtain st' w' where r: "SPop env st n w = (Inr (take (unat n) ?ml), st', w')"
      "Len (meta st') = Len (meta st) - of_nat (min (length ?ml) (unat n))"
      "member_list env st' w' = drop (unat n) ?ml"
      "map_of (kv w') (MetaKey env (key st)) =
        Some (encodeSetMeta env ((meta st)\<lparr>Len := Len (meta st) -
           of_nat (min (length ?ml) (unat n))\<rparr>))"
    by blast
  have m: "min (length ?ml) (unat n) = length ?ml" using big by simp
  show ?thesis
    using r big unfolding m len by simp
qed

theorem SPop_negative_count_pops_all_witness:
  "no_faults (ref_world (ref_store 1 [107] 0 3 [[99], [97], [98]])) \<and>
   exists (ref_set 1 [107] 3) \<and>
   sint (- 1 :: int64) < 0 \<and>
   sint (Len (meta (ref_set 1 [107] 3))) =
     int (length (member_list ref_env (ref_set 1 [107] 3)
        (ref_world (ref_store 1 [107] 0 3 [[99], [97], [98]])))) \<and>
   member_list ref_env (ref_set 1 [107] 3) (ref_world (ref_store 1 [107] 0 3 [[99], [97], [98]]))
     \<noteq> [] \<and>
   \<not> HasPrefix (MetaKey ref_env (key (ref_set 1 [107] 3))) (data_prefix ref_env (ref_set 1 [107] 3)) \<and>
   (\<exists>st' w'.
      SPop ref_env (ref_set 1 [107] 3) (- 1) (ref_world (ref_store 1 [107] 0 3 [[99], [97], [98]]))
        = (Inr (member_list ref_env (ref_set 1 [107] 3)
             (ref_world (ref_store 1 [107] 0 3 [[99], [97], [98]]))), st', w') \<and>
      member_list ref_env st' w' = [] \<and>
      Len (meta st') = 0 \<and>
      map_of (kv w') (MetaKey ref_env (key (ref_set 1 [107] 3)))
        = Some (encodeSetMeta ref_env ((meta (ref_set 1 [107] 3))\<lparr>Len := 0\<rparr>))) \<and>
   fst (SPop ref_env (ref_set 1 [107] 3) (- 1) (ref_world (ref_store 1 [107] 0 3 [[99], [97], [98]])))
     = Inr [[97], [98], [99]]"
proof -
  let ?w = "ref_world (ref_store 1 [107] 0 3 [[99], [97], [98]])"
  let ?st = "ref_set 1 [107] 3"
  have h1: "no_faults ?w" by simp
  have h2: "exists ?st" by (simp add: ref_set_def)
  have h3: "sint (- 1 :: int64) < 0" by simp
  have h4: "sint (Len (meta ?st)) = int (length (member_list ref_env ?st ?w))"
    by code_simp
  have e1: "member_list ref_env ?st ?w = [[97], [98], [99]]"
    by code_simp
  then have h5: "member_list ref_env ?st ?w \<noteq> []" by simp
  have h6: "\<not> HasPrefix (MetaKey ref_env (key ?st)) (data_prefix ref_env ?st)"
    by code_simp
  have e2: "fst (SPop ref_env ?st (- 1) ?w) = Inr [[97], [98], [99]]"
    by code_simp
  from SPop_negative_count_pops_all [OF h1 h2 h3 h4 h5 h6] h1 h2 h3 h4 h5 h6 e2 show ?thesis
    by blast
qed

section \<open>SMove\<close>

lemma GetSet_found:
  assumes "get_err w (MetaKey env k) = None"
    and "map_of (kv w) (MetaKey env k) = Some mbytes"
    and "DecodeSetMeta env (Some mbytes) = Inr smeta"
    and "Type (Object smeta) = ObjectSet env"
  shows "GetSet env k w =
     (Inr \<lparr>meta = smeta, key = k, exists = True\<rparr>,
      w\<lparr>ticks := Suc (Suc (ticks w)), issued := Suc (issued w)\<rparr>)"
  using assms
  by (simp add: GetSet_def newSet_def Now_def UUID_def txn_Get_def IsExpired_def)

text \<open>
  C9. \<open>SMove\<close> with the source's own logical key as destination, for a member of the
  source: the destination handle is the same set, the member is found in it and is not
  added, its key is deleted, \<open>Len\<close> goes down by one and is persisted, and the call
  returns 1. The member is lost.
\<close>

theorem SMove_to_own_key_loses_member:
  assumes "no_faults w" and "exists st"
    and "map_of (kv w) (setItemKey (DataKey env (ID (Object (meta st)))) member) = Some SetNilValue"
    and "map_of (kv w) (MetaKey env (key st)) = Some mbytes"
    and "DecodeSetMeta env (Some mbytes) = Inr smeta"
    and "Type (Object smeta) = ObjectSet env"
    and "ID (Object smeta) = ID (Object (meta st))"
    and "MetaKey env (key st) \<noteq> setItemKey (DataKey env (ID (Object (meta st)))) member"
  shows "\<exists>st' w'.
      SMove env st (key st) member w = (Inr 1, st', w') \<and>
      map_of (kv w') (setItemKey (DataKey env (ID (Object (meta st)))) member) = None \<and>
      Len (meta st') = Len (meta st) - 1 \<and>
      map_of (kv w') (MetaKey env (key st)) =
        Some (encodeSetMeta env ((meta st)\<lparr>Len := Len (meta st) - 1\<rparr>))"
proof -
  let ?ikey = "setItemKey (DataKey env (ID (Object (meta st)))) member"
  let ?w1 = "w\<lparr>ticks := Suc (Suc (ticks w)), issued := Suc (issued w)\<rparr>"
  let ?dest = "\<lparr>meta = smeta, key = key st, exists = True\<rparr>"
  have g: "get_err w = (\<lambda>k. None)" and d: "del_err w = (\<lambda>k. None)"
    using assms(1) by (auto simp add: no_faults_def)
  have m1: "SIsmember env st member w = Inr 1"
    using assms(2,3) g by (simp add: SIsmember_def txn_Get_def)
  have gs: "GetSet env (key st) w = (Inr ?dest, ?w1)"
    by (rule GetSet_found [OF _ assms(4,5,6)]) (simp add: g)
  have m2: "SIsmember env ?dest member ?w1 = Inr 1"
    using assms(3,7) g by (simp add: SIsmember_def txn_Get_def)
  let ?w3 = "?w1\<lparr>kv := filter (\<lambda>p. fst p \<noteq> ?ikey) (kv ?w1)\<rparr>"
  have del: "txn_Delete ?w1 ?ikey = Inr ?w3"
    using d by (simp add: txn_Delete_def)
  let ?st1 = "st\<lparr>meta := (meta st)\<lparr>Len := Len (meta st) - 1\<rparr>\<rparr>"
  let ?st2 = "?st1\<lparr>meta := (meta ?st1)\<lparr>Object := (Object (meta ?st1))\<lparr>UpdatedAt := clock ?w3 (ticks ?w3)\<rparr>\<rparr>,
          exists := True\<rparr>"
  let ?w4 = "?w3\<lparr>kv := (MetaKey env (key ?st1), encodeSetMeta env (meta ?st1)) #
               filter (\<lambda>q. fst q \<noteq> MetaKey env (key ?st1)) (kv ?w3),
         ticks := Suc (ticks ?w3)\<rparr>"
  have um: "updateMeta env ?st1 ?w3 = (None, ?st2, ?w4)"
    by (rule updateMeta_ok) (use assms(1) in \<open>simp add: no_faults_def\<close>)
  have res: "SMove env st (key st) member w = (Inr 1, ?st2, ?w4)"
    using assms(2) m1 gs m2 del um by (simp add: SMove_def Let_def)
  have "map_of (kv ?w4) ?ikey = None"
    using assms(8) by (simp add: map_of_filter_fst_neq del: filter_filter)
  moreover have "map_of (kv ?w4) (MetaKey env (key st)) =
      Some (encodeSetMeta env ((meta st)\<lparr>Len := Len (meta st) - 1\<rparr>))"
    by simp
  ultimately show ?thesis using res by simp
qed

theorem SMove_to_own_key_loses_member_witness:
  "no_faults (ref_world (ref_store 1 [107] 0 2 [[97], [98]])) \<and>
   exists (ref_set 1 [107] 2) \<and>
   map_of (kv (ref_world (ref_store 1 [107] 0 2 [[97], [98]])))
     (setItemKey (DataKey ref_env (ID (Object (meta (ref_set 1 [107] 2))))) [97]) = Some SetNilValue \<and>
   map_of (kv (ref_world (ref_store 1 [107] 0 2 [[97], [98]]))) (MetaKey ref_env (key (ref_set 1 [107] 2)))
     = Some (encodeSetMeta ref_env \<lparr>Object = ref_object 1 0, Len = 2\<rparr>) \<and>
   DecodeSetMeta ref_env (Some (encodeSetMeta ref_env \<lparr>Object = ref_object 1 0, Len = 2\<rparr>))
     = Inr \<lparr>Object = ref_object 1 0, Len = 2\<rparr> \<and>
   Type (Object \<lparr>Object = ref_object 1 0, Len = 2\<rparr>) = ObjectSet ref_env \<and>
   ID (Object \<lparr>Object = ref_object 1 0, Len = 2\<rparr>) = ID (Object (meta (ref_set 1 [107] 2))) \<and>
   MetaKey ref_env (key (ref_set 1 [107] 2))
     \<noteq> setItemKey (DataKey ref_env (ID (Object (meta (ref_set 1 [107] 2))))) [97] \<and>
   (\<exists>st' w'.
      SMove ref_env (ref_set 1 [107] 2) (key (ref_set 1 [107] 2)) [97]
        (ref_world (ref_store 1 [107] 0 2 [[97], [98]])) = (Inr 1, st', w') \<and>
      map_of (kv w') (setItemKey (DataKey ref_env (ID (Object (meta (ref_set 1 [107] 2))))) [97])
        = None \<and>
      Len (meta st') = Len (meta (ref_set 1 [107] 2)) - 1 \<and>
      map_of (kv w') (MetaKey ref_env (key (ref_set 1 [107] 2))) =
        Some (encodeSetMeta ref_env
          ((meta (ref_set 1 [107] 2))\<lparr>Len := Len (meta (ref_set 1 [107] 2)) - 1\<rparr>)))"
proof -
  let ?w = "ref_world (ref_store 1 [107] 0 2 [[97], [98]])"
  let ?st = "ref_set 1 [107] 2"
  let ?m = "\<lparr>Object = ref_object 1 0, Len = 2\<rparr>"
  have h1: "no_faults ?w" by simp
  have h2: "exists ?st" by (simp add: ref_set_def)
  have h3: "map_of (kv ?w) (setItemKey (DataKey ref_env (ID (Object (meta ?st)))) [97]) = Some SetNilValue"
    by code_simp
  have h4: "map_of (kv ?w) (MetaKey ref_env (key ?st)) = Some (encodeSetMeta ref_env ?m)"
    by (simp add: ref_world_def ref_store_def ref_set_def)
  have h5: "DecodeSetMeta ref_env (Some (encodeSetMeta ref_env ?m)) = Inr ?m"
    by code_simp
  have h6: "Type (Object ?m) = ObjectSet ref_env"
    by (simp add: ref_object_def ref_env_def)
  have h7: "ID (Object ?m) = ID (Object (meta ?st))"
    by (simp add: ref_set_def)
  have h8: "MetaKey ref_env (key ?st) \<noteq> setItemKey (DataKey ref_env (ID (Object (meta ?st)))) [97]"
    by code_simp
  from SMove_to_own_key_loses_member [OF h1 h2 h3 h4 h5 h6 h7 h8] h1 h2 h3 h4 h5 h6 h7 h8
  show ?thesis
    by blast
qed

end
